theory Spec2Isabelle
  imports Complex_Main "HOL-Library.Word"
begin

section \<open>Values shared by the components\<close>

text \<open>
  Python objects that cross the component boundaries (model responses, search payloads,
  returned dicts) are JSON-shaped. A dict is an association list in insertion order; a
  Python dict never holds a key twice.
\<close>

datatype json =
    JNull
  | JBool bool
  | JNum rat
  | JStr string
  | JArr "json list"
  | JObj "(string \<times> json) list"

text \<open>
  Exceptions as values. The code distinguishes \<open>httpx.HTTPStatusError\<close> (with the
  status of its response) from the other \<open>httpx.HTTPError\<close>s and from every other
  \<open>Exception\<close>; \<open>HTTPException\<close> is FastAPI's, with status code and detail. The
  string is the exception's message, \<open>str(e)\<close>.
\<close>

datatype exn =
    PyException string
  | HTTPError string
  | HTTPStatusError nat string
  | HTTPException nat string

type_synonym bytes = "8 word list"

text \<open>
  \<open>app.config.settings\<close> is not among the sources; the options the code reads are
  taken as a parameter.
\<close>

record settings =
  LOCAL_MODELS_DIR :: string
  LOCAL_MODEL_LIGHT_REPO :: string
  LOCAL_MODEL_LIGHT_FILENAME :: string
  LOCAL_MODEL_HEAVY_REPO :: string
  LOCAL_MODEL_HEAVY_FILENAME :: string
  SERPAPI_API_KEY :: "string option"
  SERPAPI_MIN_INTERVAL :: rat
  SERPAPI_MAX_RETRIES :: int
  SERPAPI_BACKOFF_FACTOR :: rat

section \<open>LocalIntelligenceClient (app/core/local\_intelligence.py)\<close>

text \<open>
  An engine is the object \<open>Llama(model_path=..., n_ctx=..., n_gpu_layers=..., verbose=...)\<close>
  builds; it is identified by its constructor arguments. Such an object is truthy (the
  class defines neither \<open>__bool__\<close> nor \<open>__len__\<close>), so \<open>if self.light_model:\<close>
  tests the slot against \<open>None\<close>.
\<close>

record Llama =
  model_path :: string
  n_ctx :: nat
  n_gpu_layers :: nat
  verbose :: bool

text \<open>
  The request handed to \<open>create_chat_completion\<close>: the image (the code embeds it
  base64-encoded in a data URL of the user message), the token budget and the
  temperature; the system prompt and the user text are constants.
\<close>

record chat_request =
  image_data :: bytes
  max_tokens :: nat
  temperature :: rat

text \<open>
  The external collaborators of one call: the artifact store, the two constructors of
  \<open>llama_cpp\<close>, the engine's completion call and \<open>json.loads\<close>. Each either raises
  or returns; a sequence of calls may meet a different environment at every call.
\<close>

record local_env =
  hf_hub_download :: "string \<Rightarrow> string \<Rightarrow> string \<Rightarrow> exn + string"
  MoondreamChatHandler :: "string \<Rightarrow> exn option"
  Llama_init :: "Llama \<Rightarrow> exn option"
  create_chat_completion :: "Llama \<Rightarrow> chat_request \<Rightarrow> exn + json"
  json_loads :: "string \<Rightarrow> json option"

text \<open>The external calls a client has made, oldest first (a ghost trace).\<close>

datatype event =
    Download string string
  | Handler string
  | Construct Llama
  | Completion Llama nat

record LocalIntelligenceClient =
  models_dir :: string
  light_model :: "Llama option"
  heavy_model :: "Llama option"
  calls :: "event list"

text \<open>\<open>__init__\<close>: both slots empty; \<open>d\<close> is the joined models directory.\<close>

definition init :: "string \<Rightarrow> LocalIntelligenceClient" where
  "init d = \<lparr>models_dir = d, light_model = None, heavy_model = None, calls = []\<rparr>"

text \<open>\<open>_get_model_path\<close>: the download's exception is logged and re-raised.\<close>

definition get_model_path ::
  "local_env \<Rightarrow> LocalIntelligenceClient \<Rightarrow> string \<Rightarrow> string
    \<Rightarrow> (exn + string) \<times> LocalIntelligenceClient" where
  "get_model_path env self repo_id filename =
     (hf_hub_download env repo_id filename (models_dir self),
      self\<lparr>calls := calls self @ [Download repo_id filename]\<rparr>)"

text \<open>
  \<open>_load_model\<close>. The result is the exception raised, if any, with the client as the
  call leaves it: a slot released before a failing download stays released.
\<close>

definition load_model ::
  "settings \<Rightarrow> local_env \<Rightarrow> LocalIntelligenceClient \<Rightarrow> string
    \<Rightarrow> exn option \<times> LocalIntelligenceClient" where
  "load_model cfg env self model_type =
     (if model_type = ''light'' then
        (if light_model self \<noteq> None then (None, self)
         else
           let self1 = (if heavy_model self \<noteq> None then self\<lparr>heavy_model := None\<rparr> else self)
           in (case get_model_path env self1 (LOCAL_MODEL_LIGHT_REPO cfg)
                      (LOCAL_MODEL_LIGHT_FILENAME cfg) of
                 (Inl e, self2) \<Rightarrow> (Some e, self2)
               | (Inr path, self2) \<Rightarrow>
                   let self3 = self2\<lparr>calls := calls self2 @ [Handler path]\<rparr>
                   in (case MoondreamChatHandler env path of
                         Some e \<Rightarrow> (Some e, self3)
                       | None \<Rightarrow>
                           let m = \<lparr>model_path = path, n_ctx = 2048, n_gpu_layers = 0,
                                     verbose = False\<rparr>;
                               self4 = self3\<lparr>calls := calls self3 @ [Construct m]\<rparr>
                           in (case Llama_init env m of
                                 Some e \<Rightarrow> (Some e, self4)
                               | None \<Rightarrow> (None, self4\<lparr>light_model := Some m\<rparr>)))))
      else if model_type = ''heavy'' then
        (if heavy_model self \<noteq> None then (None, self)
         else
           let self1 = (if light_model self \<noteq> None then self\<lparr>light_model := None\<rparr> else self)
           in (case get_model_path env self1 (LOCAL_MODEL_HEAVY_REPO cfg)
                      (LOCAL_MODEL_HEAVY_FILENAME cfg) of
                 (Inl e, self2) \<Rightarrow> (Some e, self2)
               | (Inr path, self2) \<Rightarrow>
                   let m = \<lparr>model_path = path, n_ctx = 4096, n_gpu_layers = 0,
                             verbose = True\<rparr>;
                       self3 = self2\<lparr>calls := calls self2 @ [Construct m]\<rparr>
                   in (case Llama_init env m of
                         Some e \<Rightarrow> (Some e, self3)
                       | None \<Rightarrow> (None, self3\<lparr>heavy_model := Some m\<rparr>))))
      else (None, self))"

text \<open>
  Python's \<open>str.find\<close> and \<open>str.rfind\<close> for a one-character needle (the index of the
  first, of the last occurrence, or \<open>-1\<close>) and the slice \<open>s[i:j]\<close> with its clamping
  of the bounds (a negative bound counts from the end).
\<close>

definition py_find :: "string \<Rightarrow> char \<Rightarrow> int" where
  "py_find s c =
     (if c \<in> set s then int (length (takeWhile (\<lambda>x. x \<noteq> c) s)) else - 1)"

definition py_rfind :: "string \<Rightarrow> char \<Rightarrow> int" where
  "py_rfind s c =
     (if c \<in> set s
      then int (length s) - 1 - int (length (takeWhile (\<lambda>x. x \<noteq> c) (rev s)))
      else - 1)"

definition py_slice :: "'a list \<Rightarrow> int \<Rightarrow> int \<Rightarrow> 'a list" where
  "py_slice s i j =
     (let n = int (length s);
          lo = (if i < 0 then max 0 (n + i) else min i n);
          hi = (if j < 0 then max 0 (n + j) else min j n)
      in take (nat (hi - lo)) (drop (nat lo) s))"

text \<open>The dict \<open>_parse_local_response\<close> returns when no JSON could be parsed.\<close>

definition parse_fallback :: "string \<Rightarrow> json" where
  "parse_fallback content =
     JObj [(''overall_description'', JStr (take 200 content @ ''...'')),
           (''total_calories_estimate'', JStr ''Estimated''),
           (''items'', JArr []),
           (''note'', JStr ''Raw output returned due to parsing error.'')]"

text \<open>
  \<open>_parse_local_response\<close>, for \<open>content\<close> a \<open>str\<close>. \<open>loads\<close> is \<open>json.loads\<close>
  (\<open>None\<close> when it raises); the bare \<open>except\<close> swallows its exception.
\<close>

definition parse_local_response :: "(string \<Rightarrow> json option) \<Rightarrow> string \<Rightarrow> json" where
  "parse_local_response loads content =
     (let start = py_find content (CHR ''{'');
          end_idx = py_rfind content (CHR ''}'') + 1
      in if start \<noteq> - 1 \<and> end_idx \<noteq> - 1
         then (case loads (py_slice content start end_idx) of
                 Some v \<Rightarrow> v
               | None \<Rightarrow> parse_fallback content)
         else parse_fallback content)"

text \<open>Subscripting a response object: \<open>obj[key]\<close> and \<open>obj[0]\<close>.\<close>

fun getitem_key :: "json \<Rightarrow> string \<Rightarrow> exn + json" where
  "getitem_key (JObj kvs) k =
     (case map_of kvs k of Some v \<Rightarrow> Inr v | None \<Rightarrow> Inl (PyException ''KeyError''))"
| "getitem_key j k = Inl (PyException ''TypeError'')"

fun getitem_first :: "json \<Rightarrow> exn + json" where
  "getitem_first (JArr xs) =
     (case xs of [] \<Rightarrow> Inl (PyException ''IndexError'') | x # _ \<Rightarrow> Inr x)"
| "getitem_first (JStr s) =
     (case s of [] \<Rightarrow> Inl (PyException ''IndexError'') | c # _ \<Rightarrow> Inr (JStr [c]))"
| "getitem_first (JObj kvs) = Inl (PyException ''KeyError'')"
| "getitem_first j = Inl (PyException ''TypeError'')"

text \<open>\<open>response["choices"][0]["message"]["content"]\<close>\<close>

definition response_content :: "json \<Rightarrow> exn + json" where
  "response_content response =
     (case getitem_key response ''choices'' of
        Inl e \<Rightarrow> Inl e
      | Inr choices \<Rightarrow>
          (case getitem_first choices of
             Inl e \<Rightarrow> Inl e
           | Inr choice \<Rightarrow>
               (case getitem_key choice ''message'' of
                  Inl e \<Rightarrow> Inl e
                | Inr message \<Rightarrow> getitem_key message ''content'')))"

text \<open>
  \<open>self._parse_local_response(content)\<close> as \<open>analyze_image\<close> calls it: a content that
  is not a \<open>str\<close> has no \<open>find\<close> (swallowed by the bare \<open>except\<close>) and then fails
  in \<open>content[:200] + "..."\<close>, outside that \<open>try\<close>.
\<close>

fun parse_content :: "(string \<Rightarrow> json option) \<Rightarrow> json \<Rightarrow> exn + json" where
  "parse_content loads (JStr content) = Inr (parse_local_response loads content)"
| "parse_content loads j = Inl (PyException ''TypeError'')"

definition emergency_fallback :: json where
  "emergency_fallback =
     JObj [(''overall_description'', JStr ''Error in local analysis.''),
           (''total_calories_estimate'', JStr ''Unknown''),
           (''items'', JArr [JObj [(''name'', JStr ''Unidentified''),
                                   (''nutrition'', JObj []),
                                   (''description'', JStr ''Analysis failed'')]])]"

text \<open>
  \<open>analyze_image\<close>. The load is outside the \<open>try\<close>; the completion call, the
  subscripts and the parsing are inside it, and \<open>except Exception\<close> maps whatever they
  raise to the emergency dict. An empty slot at the completion call would raise
  AttributeError inside the \<open>try\<close>.
\<close>

definition analyze_image ::
  "settings \<Rightarrow> local_env \<Rightarrow> LocalIntelligenceClient \<Rightarrow> bytes \<Rightarrow> bool
    \<Rightarrow> (exn + json) \<times> LocalIntelligenceClient" where
  "analyze_image cfg env self image_bytes deep_search =
     (let target_model_type = (if deep_search then ''heavy'' else ''light'')
      in case load_model cfg env self target_model_type of
           (Some e, self1) \<Rightarrow> (Inl e, self1)
         | (None, self1) \<Rightarrow>
             (case (if deep_search then heavy_model self1 else light_model self1) of
                None \<Rightarrow> (Inr emergency_fallback, self1)
              | Some model \<Rightarrow>
                  let req = \<lparr>image_data = image_bytes,
                               max_tokens = (if deep_search then 300 else 150),
                               temperature = 2 / 10\<rparr>;
                      self2 = self1\<lparr>calls := calls self1 @ [Completion model (max_tokens req)]\<rparr>
                  in (case create_chat_completion env model req of
                        Inl e \<Rightarrow> (Inr emergency_fallback, self2)
                      | Inr response \<Rightarrow>
                          (case response_content response of
                             Inl e \<Rightarrow> (Inr emergency_fallback, self2)
                           | Inr content \<Rightarrow>
                               (case parse_content (json_loads env) content of
                                  Inl e \<Rightarrow> (Inr emergency_fallback, self2)
                                | Inr result \<Rightarrow> (Inr result, self2))))))"

text \<open>
  A history of a client: calls of \<open>_load_model\<close> and \<open>analyze_image\<close>, each with the
  environment it meets, applied in order to the client \<open>__init__\<close> builds.
\<close>

datatype call = Load_model string | Analyze_image bytes bool

fun step :: "settings \<Rightarrow> LocalIntelligenceClient \<Rightarrow> local_env \<times> call \<Rightarrow> LocalIntelligenceClient" where
  "step cfg self (env, Load_model model_type) = snd (load_model cfg env self model_type)"
| "step cfg self (env, Analyze_image image_bytes deep_search) =
     snd (analyze_image cfg env self image_bytes deep_search)"

definition run :: "settings \<Rightarrow> (local_env \<times> call) list \<Rightarrow> LocalIntelligenceClient \<Rightarrow> LocalIntelligenceClient" where
  "run cfg ops self = foldl (step cfg) self ops"

text \<open>
  What every history keeps: one slot at most is occupied, the light slot holds only an
  engine built with the light tier's parameters, the heavy slot only one built with the
  heavy tier's.
\<close>

definition is_light :: "Llama \<Rightarrow> bool" where
  "is_light m = (n_ctx m = 2048 \<and> n_gpu_layers m = 0 \<and> \<not> verbose m)"

definition is_heavy :: "Llama \<Rightarrow> bool" where
  "is_heavy m = (n_ctx m = 4096 \<and> n_gpu_layers m = 0 \<and> verbose m)"

definition slots_ok :: "LocalIntelligenceClient \<Rightarrow> bool" where
  "slots_ok self =
     ((light_model self = None \<or> heavy_model self = None)
      \<and> (case light_model self of None \<Rightarrow> True | Some m \<Rightarrow> is_light m)
      \<and> (case heavy_model self of None \<Rightarrow> True | Some m \<Rightarrow> is_heavy m))"

text \<open>
  Reading the ghost trace: whether an external call belongs to the tier a request with
  flag \<open>deep_search\<close> asks for. A download is the tier's when it names the tier's
  configured artifact; the chat handler is built on the light path only; an engine is
  the tier's by its construction parameters; a completion also by its token budget.
\<close>

fun event_of_tier :: "settings \<Rightarrow> bool \<Rightarrow> event \<Rightarrow> bool" where
  "event_of_tier cfg deep_search (Download repo_id filename) =
     (if deep_search
      then repo_id = LOCAL_MODEL_HEAVY_REPO cfg \<and> filename = LOCAL_MODEL_HEAVY_FILENAME cfg
      else repo_id = LOCAL_MODEL_LIGHT_REPO cfg \<and> filename = LOCAL_MODEL_LIGHT_FILENAME cfg)"
| "event_of_tier cfg deep_search (Handler path) = (\<not> deep_search)"
| "event_of_tier cfg deep_search (Construct m) =
     (if deep_search then is_heavy m \<and> \<not> is_light m else is_light m \<and> \<not> is_heavy m)"
| "event_of_tier cfg deep_search (Completion m budget) =
     (if deep_search then is_heavy m \<and> \<not> is_light m \<and> budget = 300
      else is_light m \<and> \<not> is_heavy m \<and> budget = 150)"

fun completions :: "event list \<Rightarrow> Llama list" where
  "completions [] = []"
| "completions (Completion m budget # evs) = m # completions evs"
| "completions (ev # evs) = completions evs"

text \<open>The external calls made between two states of one client.\<close>

definition new_calls :: "LocalIntelligenceClient \<Rightarrow> LocalIntelligenceClient \<Rightarrow> event list" where
  "new_calls before after = drop (length (calls before)) (calls after)"

section \<open>The dispatcher and the route\<close>

text \<open>
  Modelled from the spec: the dispatcher \<open>analyze_food_image_with_search\<close> lives in
  app/core/vision.py, which is not among the sources; only its tests and its caller
  are. By the spec (4.3) it returns the primary path's result when that succeeds;
  on any failure of the primary path it calls the local client with the request's
  own quality flag; when that raises too it fails with the "all systems failed" error,
  which the test pins to an \<open>HTTPException\<close> of status 500 whose detail contains
  \<open>All AI systems failed\<close>. \<open>primary\<close> is the outcome of the cloud path.
\<close>

definition analyze_food_image_with_search ::
  "settings \<Rightarrow> exn + json \<Rightarrow> local_env \<Rightarrow> LocalIntelligenceClient \<Rightarrow> bytes \<Rightarrow> bool
    \<Rightarrow> (exn + json) \<times> LocalIntelligenceClient" where
  "analyze_food_image_with_search cfg primary env local_client image_bytes deep_search =
     (case primary of
        Inr result \<Rightarrow> (Inr result, local_client)
      | Inl cloud_error \<Rightarrow>
          (case analyze_image cfg env local_client image_bytes deep_search of
             (Inr result, local_client') \<Rightarrow> (Inr result, local_client')
           | (Inl local_error, local_client') \<Rightarrow>
               (Inl (HTTPException 500 ''All AI systems failed''), local_client')))"

text \<open>
  \<open>analyze_food\<close> of app/routers/food.py, over any dispatcher. The upload carries its
  content type (which may be absent) and what \<open>file.read()\<close> gives; \<open>str\<close> renders an
  exception as \<open>str(e)\<close> does. The content-type check is outside the \<open>try\<close>; every
  exception inside it becomes an \<open>HTTPException\<close> of status 500.
\<close>

record UploadFile =
  filename :: string
  content_type :: "string option"
  read :: "exn + bytes"

definition startswith :: "string \<Rightarrow> string \<Rightarrow> bool" where
  "startswith s p = (take (length p) s = p)"

definition analyze_food ::
  "(bytes \<Rightarrow> bool \<Rightarrow> 's \<Rightarrow> (exn + json) \<times> 's) \<Rightarrow> (exn \<Rightarrow> string) \<Rightarrow> UploadFile \<Rightarrow> bool \<Rightarrow> 's
    \<Rightarrow> (exn + json) \<times> 's" where
  "analyze_food dispatch str file deep_search st =
     (case content_type file of
        None \<Rightarrow> (Inl (PyException ''AttributeError''), st)
      | Some ct \<Rightarrow>
          if \<not> startswith ct ''image/''
          then (Inl (HTTPException 400 ''File must be an image.''), st)
          else (case read file of
                  Inl e \<Rightarrow> (Inl (HTTPException 500 (str e)), st)
                | Inr contents \<Rightarrow>
                    (case dispatch contents deep_search st of
                       (Inr result, st') \<Rightarrow> (Inr result, st')
                     | (Inl e, st') \<Rightarrow> (Inl (HTTPException 500 (str e)), st'))))"

section \<open>SerpAPIWrapper (app/core/search.py)\<close>

text \<open>
  What one outbound GET gives: \<open>client.get\<close> raises, or there is a response with its
  status code, the message \<open>raise_for_status\<close> would raise with, and what
  \<open>response.json()\<close> gives (a value, or the exception of a malformed body).
\<close>

datatype http_reply =
    Raises exn
  | Response nat string "exn + json"

text \<open>
  The external collaborators of the search client: the network, which answers the
  \<open>n\<close>-th outbound attempt of the client's life for a query after some time with some
  reply, and \<open>str_exn\<close>, which renders an exception as \<open>str(e)\<close> does.
\<close>

record search_env =
  net :: "nat \<Rightarrow> string \<Rightarrow> rat \<times> http_reply"
  str_exn :: "exn \<Rightarrow> string"

text \<open>
  The effects of a client, oldest first (a ghost trace): the sleep of \<open>_throttle\<close>, the
  back-off sleep of the retry loop, and the GET with its query and the clock at which it
  is issued.
\<close>

datatype io = Throttle_sleep rat | Backoff_sleep rat | Get string rat

fun gets :: "io list \<Rightarrow> (string \<times> rat) list" where
  "gets [] = []"
| "gets (Get query t # evs) = (query, t) # gets evs"
| "gets (ev # evs) = gets evs"

fun backoffs :: "io list \<Rightarrow> rat list" where
  "backoffs [] = []"
| "backoffs (Backoff_sleep b # evs) = b # backoffs evs"
| "backoffs (ev # evs) = backoffs evs"

fun throttles :: "io list \<Rightarrow> rat list" where
  "throttles [] = []"
| "throttles (Throttle_sleep w # evs) = w # throttles evs"
| "throttles (ev # evs) = throttles evs"

text \<open>
  The client. Times are exact rationals where Python has floats. \<open>monotonic\<close> is the
  clock \<open>time.monotonic()\<close> reads: in this sequential model it advances by the sleeps
  and by the time the network takes. \<open>cache\<close> is the store of \<open>alru_cache\<close>, least
  recently used first.
\<close>

record SerpAPIWrapper =
  api_key :: "string option"
  base_url :: string
  last_request_ts :: rat
  min_interval :: rat
  max_retries :: nat
  backoff_factor :: rat
  cache :: "(string \<times> json) list"
  monotonic :: rat
  trace :: "io list"

text \<open>\<open>__init__\<close>, on a process whose clock reads \<open>t0\<close>.\<close>

definition SerpAPIWrapper_init :: "settings \<Rightarrow> rat \<Rightarrow> SerpAPIWrapper" where
  "SerpAPIWrapper_init cfg t0 =
     \<lparr>api_key = SERPAPI_API_KEY cfg,
      base_url = ''https://serpapi.com/search'',
      last_request_ts = 0,
      min_interval = max 0 (SERPAPI_MIN_INTERVAL cfg),
      max_retries = nat (max 0 (SERPAPI_MAX_RETRIES cfg)),
      backoff_factor = max 1 (SERPAPI_BACKOFF_FACTOR cfg),
      cache = [],
      monotonic = t0,
      trace = []\<rparr>"

text \<open>\<open>_throttle\<close>: sleep what is missing to the minimum interval, then stamp.\<close>

definition throttle :: "SerpAPIWrapper \<Rightarrow> SerpAPIWrapper" where
  "throttle self =
     (let now = monotonic self;
          wait = min_interval self - (now - last_request_ts self);
          self1 = (if wait > 0
                   then self\<lparr>monotonic := now + wait,
                             trace := trace self @ [Throttle_sleep wait]\<rparr>
                   else self)
      in self1\<lparr>last_request_ts := monotonic self1\<rparr>)"

text \<open>
  \<open>response.raise_for_status()\<close> of httpx raises \<open>HTTPStatusError\<close> for every status
  that is not a success (2xx).
\<close>

definition raise_for_status :: "nat \<Rightarrow> string \<Rightarrow> exn option" where
  "raise_for_status status msg =
     (if 200 \<le> status \<and> status < 300 then None else Some (HTTPStatusError status msg))"

text \<open>
  The body of the inner \<open>try\<close> for one reply: \<open>None\<close> is the \<open>continue\<close> of the 429
  branch, otherwise the exception raised in the \<open>try\<close> or the parsed \<open>data\<close>.
\<close>

definition try_reply :: "bool \<Rightarrow> http_reply \<Rightarrow> (exn + json) option" where
  "try_reply may_retry reply =
     (case reply of
        Raises e \<Rightarrow> Some (Inl e)
      | Response status msg body \<Rightarrow>
          if status = 429 \<and> may_retry then None
          else (case raise_for_status status msg of
                  Some e \<Rightarrow> Some (Inl e)
                | None \<Rightarrow> Some body))"

text \<open>
  \<open>except httpx.HTTPStatusError as e\<close>: whether the handler backs off and continues
  (otherwise the exception goes on to the outer \<open>try\<close>).
\<close>

fun retries_on :: "bool \<Rightarrow> exn \<Rightarrow> bool" where
  "retries_on may_retry (HTTPStatusError status msg) = (status = 429 \<and> may_retry)"
| "retries_on may_retry e = False"

text \<open>
  The loop \<open>for attempt in range(self.max_retries + 1)\<close>, over the attempts left, with
  the current \<open>backoff\<close>. A loop that ran out without \<open>break\<close> would leave \<open>data\<close>
  unbound.
\<close>

fun attempts ::
  "search_env \<Rightarrow> string \<Rightarrow> nat list \<Rightarrow> rat \<Rightarrow> SerpAPIWrapper \<Rightarrow> (exn + json) \<times> SerpAPIWrapper" where
  "attempts env query [] backoff self = (Inl (PyException ''UnboundLocalError''), self)"
| "attempts env query (attempt # rest) backoff self =
     (let self1 = throttle self;
          answer = net env (length (gets (trace self1))) query;
          self2 = self1\<lparr>monotonic := monotonic self1 + fst answer,
                         trace := trace self1 @ [Get query (monotonic self1)]\<rparr>;
          may_retry = (attempt < max_retries self);
          backoff' = backoff * backoff_factor self;
          self3 = self2\<lparr>monotonic := monotonic self2 + backoff',
                         trace := trace self2 @ [Backoff_sleep backoff']\<rparr>
      in case try_reply may_retry (snd answer) of
           None \<Rightarrow> attempts env query rest backoff' self3
         | Some (Inr data) \<Rightarrow> (Inr data, self2)
         | Some (Inl e) \<Rightarrow>
             if retries_on may_retry e then attempts env query rest backoff' self3
             else (Inl e, self2))"

text \<open>\<open>obj.get(key, default)\<close>: only a dict has the method.\<close>

fun py_get :: "json \<Rightarrow> string \<Rightarrow> json \<Rightarrow> exn + json" where
  "py_get (JObj kvs) k d = Inr (case map_of kvs k of Some v \<Rightarrow> v | None \<Rightarrow> d)"
| "py_get j k d = Inl (PyException ''AttributeError'')"

text \<open>
  \<open>data["organic_results"][:3]\<close>, as the sequence the \<open>for\<close> iterates: a list gives
  its first three elements, a string its first three characters, anything else cannot be
  sliced.
\<close>

fun first_three :: "json \<Rightarrow> exn + json list" where
  "first_three (JArr xs) = Inr (take 3 xs)"
| "first_three (JStr s) = Inr (map (\<lambda>c. JStr [c]) (take 3 s))"
| "first_three j = Inl (PyException ''TypeError'')"

text \<open>One entry of \<open>results["snippets"]\<close>.\<close>

definition snippet_of :: "json \<Rightarrow> exn + json" where
  "snippet_of res =
     (case py_get res ''title'' JNull of
        Inl e \<Rightarrow> Inl e
      | Inr title \<Rightarrow>
          (case py_get res ''snippet'' JNull of
             Inl e \<Rightarrow> Inl e
           | Inr snippet \<Rightarrow>
               (case py_get res ''link'' JNull of
                  Inl e \<Rightarrow> Inl e
                | Inr link \<Rightarrow>
                    Inr (JObj [(''title'', title), (''snippet'', snippet), (''link'', link)]))))"

fun snippets_of :: "json list \<Rightarrow> exn + json list" where
  "snippets_of [] = Inr []"
| "snippets_of (res # rest) =
     (case snippet_of res of
        Inl e \<Rightarrow> Inl e
      | Inr sn \<Rightarrow> (case snippets_of rest of Inl e \<Rightarrow> Inl e | Inr sns \<Rightarrow> Inr (sn # sns)))"

text \<open>The projection of the payload (the lines after the loop, inside the outer \<open>try\<close>).\<close>

fun shape_results :: "json \<Rightarrow> exn + json" where
  "shape_results (JObj kvs) =
     (case py_get (JObj kvs) ''knowledge_graph'' (JObj []) of
        Inl e \<Rightarrow> Inl e
      | Inr kg \<Rightarrow>
          (case map_of kvs ''organic_results'' of
             None \<Rightarrow> Inr (JObj [(''snippets'', JArr []), (''knowledge_graph'', kg)])
           | Some organic \<Rightarrow>
               (case first_three organic of
                  Inl e \<Rightarrow> Inl e
                | Inr firsts \<Rightarrow>
                    (case snippets_of firsts of
                       Inl e \<Rightarrow> Inl e
                     | Inr sns \<Rightarrow>
                         Inr (JObj [(''snippets'', JArr sns), (''knowledge_graph'', kg)])))))"
| "shape_results j = Inl (PyException ''AttributeError'')"

definition error_result :: "string \<Rightarrow> json" where
  "error_result msg = JObj [(''error'', JStr msg)]"

text \<open>\<open>not self.api_key\<close>: the key is \<open>None\<close> or the empty string.\<close>

definition key_missing :: "string option \<Rightarrow> bool" where
  "key_missing k = (case k of None \<Rightarrow> True | Some s \<Rightarrow> s = [])"

text \<open>
  The function under the decorator, \<open>search_food_info.__wrapped__\<close>. Both \<open>except\<close>
  clauses of the outer \<open>try\<close> return the same dict, so it never raises.
\<close>

definition search_food_info_wrapped ::
  "search_env \<Rightarrow> SerpAPIWrapper \<Rightarrow> string \<Rightarrow> json \<times> SerpAPIWrapper" where
  "search_food_info_wrapped env self query =
     (if key_missing (api_key self) then (error_result ''API Key missing'', self)
      else (case attempts env query [0 ..< max_retries self + 1] (min_interval self) self of
              (Inl e, self') \<Rightarrow> (error_result (str_exn env e), self')
            | (Inr data, self') \<Rightarrow>
                (case shape_results data of
                   Inl e \<Rightarrow> (error_result (str_exn env e), self')
                 | Inr results \<Rightarrow> (results, self'))))"

text \<open>
  \<open>search_food_info\<close> as decorated with \<open>alru_cache(maxsize=128)\<close>, for calls that
  follow one another: a hit returns the stored value and makes the entry the most
  recent; a miss runs the function, stores whatever it returns and, beyond 128 entries,
  drops the least recent one. The decorator keeps every returned value; it would skip
  only a call that raises, and the function never does.
\<close>

definition search_food_info ::
  "search_env \<Rightarrow> SerpAPIWrapper \<Rightarrow> string \<Rightarrow> json \<times> SerpAPIWrapper" where
  "search_food_info env self query =
     (case map_of (cache self) query of
        Some v \<Rightarrow>
          (v, self\<lparr>cache := filter (\<lambda>kv. fst kv \<noteq> query) (cache self) @ [(query, v)]\<rparr>)
      | None \<Rightarrow>
          (case search_food_info_wrapped env self query of
             (v, self') \<Rightarrow>
               (v, self'\<lparr>cache := (if length (cache self') + 1 > 128
                                     then tl (cache self' @ [(query, v)])
                                     else cache self' @ [(query, v)])\<rparr>)))"

text \<open>A history of lookups, each with the environment it meets.\<close>

definition lookups :: "(search_env \<times> string) list \<Rightarrow> SerpAPIWrapper \<Rightarrow> SerpAPIWrapper" where
  "lookups qs self = foldl (\<lambda>c (env, query). snd (search_food_info env c query)) self qs"

text \<open>The effects between two states of one client.\<close>

definition new_io :: "SerpAPIWrapper \<Rightarrow> SerpAPIWrapper \<Rightarrow> io list" where
  "new_io before after = drop (length (trace before)) (trace after)"

section \<open>Concrete inputs\<close>

definition demo_settings :: settings where
  "demo_settings =
     \<lparr>LOCAL_MODELS_DIR = ''models'',
      LOCAL_MODEL_LIGHT_REPO = ''repo/light'',
      LOCAL_MODEL_LIGHT_FILENAME = ''light.gguf'',
      LOCAL_MODEL_HEAVY_REPO = ''repo/heavy'',
      LOCAL_MODEL_HEAVY_FILENAME = ''heavy.gguf'',
      SERPAPI_API_KEY = Some ''key'',
      SERPAPI_MIN_INTERVAL = 1,
      SERPAPI_MAX_RETRIES = 2,
      SERPAPI_BACKOFF_FACTOR = 2\<rparr>"

text \<open>An environment where every collaborator works but the completion call raises.\<close>

definition env_up :: local_env where
  "env_up =
     \<lparr>hf_hub_download = (\<lambda>repo_id filename local_dir. Inr (local_dir @ ''/'' @ filename)),
      MoondreamChatHandler = (\<lambda>path. None),
      Llama_init = (\<lambda>m. None),
      create_chat_completion = (\<lambda>m req. Inl (PyException ''out of memory'')),
      json_loads = (\<lambda>s. None)\<rparr>"

text \<open>An environment where the artifact store is unreachable.\<close>

definition env_down :: local_env where
  "env_down =
     \<lparr>hf_hub_download = (\<lambda>repo_id filename local_dir. Inl (PyException ''connection refused'')),
      MoondreamChatHandler = (\<lambda>path. None),
      Llama_init = (\<lambda>m. None),
      create_chat_completion = (\<lambda>m req. Inl (PyException ''out of memory'')),
      json_loads = (\<lambda>s. None)\<rparr>"

definition heavy_history :: "(local_env \<times> call) list" where
  "heavy_history = [(env_up, Analyze_image [] False), (env_up, Load_model ''heavy'')]"

definition light_history :: "(local_env \<times> call) list" where
  "light_history = [(env_down, Load_model ''heavy''), (env_up, Analyze_image [] False)]"

text \<open>
  The raw model text of the spec's example, \<open>noise { "overall_description": "apple" } trailing\<close>,
  the part of it between the braces, and the dict it denotes.
\<close>

definition quoted :: "string \<Rightarrow> string" where
  "quoted s = CHR 0x22 # s @ [CHR 0x22]"

definition example_json :: string where
  "example_json = ''{ '' @ quoted ''overall_description'' @ '': '' @ quoted ''apple'' @ '' }''"

definition example_text :: string where
  "example_text = ''noise '' @ example_json @ '' trailing''"

definition example_dict :: json where
  "example_dict = JObj [(''overall_description'', JStr ''apple'')]"

text \<open>A \<open>json.loads\<close> that parses the example's document and rejects all else.\<close>

definition example_loads :: "string \<Rightarrow> json option" where
  "example_loads s = (if s = example_json then Some example_dict else None)"

text \<open>A rendering of exceptions for the examples: the message.\<close>

fun message :: "exn \<Rightarrow> string" where
  "message (PyException m) = m"
| "message (HTTPError m) = m"
| "message (HTTPStatusError status m) = m"
| "message (HTTPException status detail) = detail"

text \<open>A payload of the search API with four organic results and fields the code drops.\<close>

definition organic :: "string \<Rightarrow> json" where
  "organic name =
     JObj [(''position'', JNum 1),
           (''title'', JStr name),
           (''link'', JStr (''https://example.org/'' @ name)),
           (''displayed_link'', JStr ''example.org''),
           (''snippet'', JStr (name @ '' is a fruit.''))]"

definition demo_organic :: "json list" where
  "demo_organic =
     [organic ''apple'', organic ''pear'', JObj [(''title'', JStr ''plum'')], organic ''fig'']"

definition demo_fields :: "(string \<times> json) list" where
  "demo_fields =
     [(''search_metadata'', JObj [(''status'', JStr ''Success'')]),
      (''knowledge_graph'', JObj [(''title'', JStr ''Apple'')]),
      (''organic_results'', JArr demo_organic)]"

definition demo_payload :: json where
  "demo_payload = JObj demo_fields"

text \<open>What the code keeps of that payload.\<close>

definition demo_projection :: json where
  "demo_projection =
     JObj [(''snippets'',
              JArr [JObj [(''title'', JStr ''apple''),
                          (''snippet'', JStr ''apple is a fruit.''),
                          (''link'', JStr ''https://example.org/apple'')],
                    JObj [(''title'', JStr ''pear''),
                          (''snippet'', JStr ''pear is a fruit.''),
                          (''link'', JStr ''https://example.org/pear'')],
                    JObj [(''title'', JStr ''plum''), (''snippet'', JNull), (''link'', JNull)]]),
           (''knowledge_graph'', JObj [(''title'', JStr ''Apple'')])]"

text \<open>A network that answers every attempt with 429 after a tenth of a second.\<close>

definition env_rate_limited :: search_env where
  "env_rate_limited =
     \<lparr>net = (\<lambda>n query. (1 / 10, Response 429 ''Too Many Requests'' (Inr JNull))),
      str_exn = message\<rparr>"

text \<open>A network that fails the first attempt with 500 and serves the payload afterwards.\<close>

definition env_flaky :: search_env where
  "env_flaky =
     \<lparr>net = (\<lambda>n query. if n = 0
                then (1 / 10, Response 500 ''Internal Server Error'' (Inr JNull))
                else (1 / 10, Response 200 ''OK'' (Inr demo_payload))),
      str_exn = message\<rparr>"

text \<open>A network that serves the payload, and one that cannot be reached.\<close>

definition env_serving :: search_env where
  "env_serving =
     \<lparr>net = (\<lambda>n query. (1 / 10, Response 200 ''OK'' (Inr demo_payload))),
      str_exn = message\<rparr>"

definition env_unreachable :: search_env where
  "env_unreachable =
     \<lparr>net = (\<lambda>n query. (10, Raises (HTTPError ''timed out''))),
      str_exn = message\<rparr>"

text \<open>The demo settings without a search key.\<close>

definition keyless_settings :: settings where
  "keyless_settings = demo_settings\<lparr>SERPAPI_API_KEY := None\<rparr>"

text \<open>Times in which each is at least \<open>d\<close> after the one before it.\<close>

fun spaced :: "rat \<Rightarrow> rat list \<Rightarrow> bool" where
  "spaced d [] = True"
| "spaced d [t] = True"
| "spaced d (t1 # t2 # ts) = (d \<le> t2 - t1 \<and> spaced d (t2 # ts))"

text \<open>
  What a sequential history keeps: the GETs so far are spaced by the minimum interval,
  and the latest of them is not later than the throttle's stamp.
\<close>

definition throttled :: "SerpAPIWrapper \<Rightarrow> bool" where
  "throttled self =
     (0 \<le> min_interval self
      \<and> spaced (min_interval self) (map snd (gets (trace self)))
      \<and> (gets (trace self) = [] \<or> snd (last (gets (trace self))) \<le> last_request_ts self))"

subsection \<open>The slots along a history\<close>

lemma slots_ok_init: "slots_ok (init d)"
  by (simp add: slots_ok_def init_def)

lemma load_model_slots_ok:
  "slots_ok self \<Longrightarrow> slots_ok (snd (load_model cfg env self model_type))"
  by (auto simp: slots_ok_def load_model_def get_model_path_def is_light_def is_heavy_def
        Let_def split: sum.splits option.splits)

lemma analyze_image_slots:
  "light_model (snd (analyze_image cfg env self b d))
     = light_model (snd (load_model cfg env self (if d then ''heavy'' else ''light'')))
   \<and> heavy_model (snd (analyze_image cfg env self b d))
     = heavy_model (snd (load_model cfg env self (if d then ''heavy'' else ''light'')))"
  by (simp add: analyze_image_def Let_def split: prod.splits option.splits sum.splits)

lemma analyze_image_slots_ok:
  "slots_ok self \<Longrightarrow> slots_ok (snd (analyze_image cfg env self b d))"
  using load_model_slots_ok [of self cfg env "if d then ''heavy'' else ''light''"]
    analyze_image_slots [of cfg env self b d]
  by (simp add: slots_ok_def)

lemma step_slots_ok: "slots_ok self \<Longrightarrow> slots_ok (step cfg self op)"
  by (cases op; cases "snd op") (simp_all add: load_model_slots_ok analyze_image_slots_ok)

lemma run_slots_ok: "slots_ok self \<Longrightarrow> slots_ok (run cfg ops self)"
  unfolding run_def by (induction ops arbitrary: self) (simp_all add: step_slots_ok)

lemma load_model_resident_light:
  "light_model self \<noteq> None \<Longrightarrow> load_model cfg env self ''light'' = (None, self)"
  by (simp add: load_model_def)

lemma load_model_resident_heavy:
  "heavy_model self \<noteq> None \<Longrightarrow> load_model cfg env self ''heavy'' = (None, self)"
  by (simp add: load_model_def)

lemma load_model_light_ok:
  "load_model cfg env self ''light'' = (None, self') \<Longrightarrow> light_model self' \<noteq> None"
  by (auto simp: load_model_def get_model_path_def Let_def split: if_splits sum.splits option.splits)

lemma load_model_heavy_ok:
  "load_model cfg env self ''heavy'' = (None, self') \<Longrightarrow> heavy_model self' \<noteq> None"
  by (auto simp: load_model_def get_model_path_def Let_def split: if_splits sum.splits option.splits)

text \<open>
  Claim C1 (single-slot residency). Along every history of \<open>_load_model\<close> and
  \<open>analyze_image\<close> calls on a fresh client, whatever the collaborators do, one slot at
  most is occupied. After a load of the heavy tier that returns, the heavy slot is
  occupied and the light slot is empty, and the same with the tiers exchanged. Loading a
  tier that is resident changes nothing: neither the slots nor the trace of external calls.
\<close>

theorem single_slot_residency:
  "(light_model (run cfg ops (init d)) = None \<or> heavy_model (run cfg ops (init d)) = None)
   \<and> (\<forall>env self'. load_model cfg env (run cfg ops (init d)) ''heavy'' = (None, self')
          \<longrightarrow> heavy_model self' \<noteq> None \<and> light_model self' = None)
   \<and> (\<forall>env self'. load_model cfg env (run cfg ops (init d)) ''light'' = (None, self')
          \<longrightarrow> light_model self' \<noteq> None \<and> heavy_model self' = None)
   \<and> (\<forall>env. heavy_model (run cfg ops (init d)) \<noteq> None
          \<longrightarrow> load_model cfg env (run cfg ops (init d)) ''heavy'' = (None, run cfg ops (init d)))
   \<and> (\<forall>env. light_model (run cfg ops (init d)) \<noteq> None
          \<longrightarrow> load_model cfg env (run cfg ops (init d)) ''light'' = (None, run cfg ops (init d)))"
proof -
  let ?c = "run cfg ops (init d)"
  have ok: "slots_ok ?c"
    by (rule run_slots_ok) (rule slots_ok_init)
  have one: "light_model ?c = None \<or> heavy_model ?c = None"
    using ok by (simp add: slots_ok_def)
  have after: "light_model self' = None \<or> heavy_model self' = None"
    if "load_model cfg env ?c t = (None, self')" for env t self'
    using load_model_slots_ok [OF ok, of cfg env t] that by (simp add: slots_ok_def)
  have heavy: "heavy_model self' \<noteq> None \<and> light_model self' = None"
    if "load_model cfg env ?c ''heavy'' = (None, self')" for env self'
    using after [OF that] load_model_heavy_ok [OF that] by blast
  have light: "light_model self' \<noteq> None \<and> heavy_model self' = None"
    if "load_model cfg env ?c ''light'' = (None, self')" for env self'
    using after [OF that] load_model_light_ok [OF that] by blast
  show ?thesis
    using one heavy light load_model_resident_heavy load_model_resident_light by blast
qed

lemma heavy_history_run:
  "heavy_model (run demo_settings heavy_history (init ''models'')) \<noteq> None"
  by (simp add: run_def heavy_history_def demo_settings_def env_up_def init_def
      analyze_image_def load_model_def get_model_path_def Let_def)

lemma light_history_run:
  "light_model (run demo_settings light_history (init ''models'')) \<noteq> None"
  by (simp add: run_def light_history_def demo_settings_def env_up_def env_down_def init_def
      analyze_image_def load_model_def get_model_path_def Let_def)

lemma heavy_history_reload:
  "fst (load_model demo_settings env_up (run demo_settings heavy_history (init ''models'')) ''light'') = None"
  by (simp add: run_def heavy_history_def demo_settings_def env_up_def init_def
      analyze_image_def load_model_def get_model_path_def Let_def)

theorem single_slot_residency_witness:
  "light_model (run demo_settings heavy_history (init ''models'')) = None
   \<and> load_model demo_settings env_down (run demo_settings heavy_history (init ''models'')) ''heavy''
       = (None, run demo_settings heavy_history (init ''models''))
   \<and> heavy_model (snd (load_model demo_settings env_up
        (run demo_settings heavy_history (init ''models'')) ''light'')) = None
   \<and> heavy_model (run demo_settings light_history (init ''models'')) = None
   \<and> load_model demo_settings env_down (run demo_settings light_history (init ''models'')) ''light''
       = (None, run demo_settings light_history (init ''models''))"
proof -
  let ?h = "run demo_settings heavy_history (init ''models'')"
  let ?l = "run demo_settings light_history (init ''models'')"
  note h = single_slot_residency [of demo_settings heavy_history "''models''"]
  note l = single_slot_residency [of demo_settings light_history "''models''"]
  have 1: "light_model ?h = None" using h heavy_history_run by blast
  have 2: "load_model demo_settings env_down ?h ''heavy'' = (None, ?h)"
    using h heavy_history_run by blast
  have "load_model demo_settings env_up ?h ''light''
          = (None, snd (load_model demo_settings env_up ?h ''light''))"
    using heavy_history_reload by (metis prod.collapse)
  then have 3: "heavy_model (snd (load_model demo_settings env_up ?h ''light'')) = None"
    using h by blast
  have 4: "heavy_model ?l = None" using l light_history_run by blast
  have 5: "load_model demo_settings env_down ?l ''light'' = (None, ?l)"
    using l light_history_run by blast
  show ?thesis using 1 2 3 4 5 by blast
qed

subsection \<open>The trace of a fallback\<close>

lemma completions_append: "completions (xs @ ys) = completions xs @ completions ys"
  by (induction xs rule: completions.induct) simp_all

text \<open>What a load adds to the trace belongs to the tier asked for.\<close>

lemma load_model_calls_light:
  "calls (snd (load_model cfg env self ''light'')) = calls self @ evs
   \<Longrightarrow> list_all (event_of_tier cfg False) evs \<and> completions evs = []"
  by (auto simp: load_model_def get_model_path_def Let_def is_light_def is_heavy_def
      split: if_splits sum.splits option.splits)

lemma load_model_calls_heavy:
  "calls (snd (load_model cfg env self ''heavy'')) = calls self @ evs
   \<Longrightarrow> list_all (event_of_tier cfg True) evs \<and> completions evs = []"
  by (auto simp: load_model_def get_model_path_def Let_def is_light_def is_heavy_def
      split: if_splits sum.splits option.splits)

lemma load_model_calls_extend:
  "\<exists>evs. calls (snd (load_model cfg env self t)) = calls self @ evs"
  by (auto simp: load_model_def get_model_path_def Let_def
      split: if_splits sum.splits option.splits)

lemma load_model_calls:
  "\<exists>evs. calls (snd (load_model cfg env self (if d then ''heavy'' else ''light''))) = calls self @ evs
      \<and> list_all (event_of_tier cfg d) evs \<and> completions evs = []"
proof -
  obtain evs where evs:
    "calls (snd (load_model cfg env self (if d then ''heavy'' else ''light''))) = calls self @ evs"
    using load_model_calls_extend by blast
  then have "list_all (event_of_tier cfg d) evs \<and> completions evs = []"
    using load_model_calls_light [of cfg env self evs] load_model_calls_heavy [of cfg env self evs]
    by (cases d) simp_all
  with evs show ?thesis by blast
qed

lemma load_model_target:
  assumes "load_model cfg env self (if d then ''heavy'' else ''light'') = (None, self1)"
  shows "(if d then heavy_model self1 else light_model self1) \<noteq> None"
  using assms
  by (auto simp: load_model_def get_model_path_def Let_def
      split: if_splits sum.splits option.splits)

text \<open>The result and the trace of \<open>analyze_image\<close> in terms of its load.\<close>

lemma analyze_image_raises:
  "load_model cfg env self (if d then ''heavy'' else ''light'') = (Some e, self1)
   \<Longrightarrow> analyze_image cfg env self b d = (Inl e, self1)"
  by (simp add: analyze_image_def)

lemma analyze_image_returns:
  assumes "load_model cfg env self (if d then ''heavy'' else ''light'') = (None, self1)"
  shows "\<exists>m r. (if d then heavy_model self1 else light_model self1) = Some m
           \<and> analyze_image cfg env self b d
               = (Inr r, self1\<lparr>calls := calls self1 @ [Completion m (if d then 300 else 150)]\<rparr>)"
proof -
  obtain m where m: "(if d then heavy_model self1 else light_model self1) = Some m"
    using load_model_target [OF assms] by blast
  show ?thesis
    using assms m
    by (cases d) (auto simp: analyze_image_def Let_def split: sum.splits)
qed

lemma analyze_image_trace:
  assumes ok: "slots_ok self"
  shows "list_all (event_of_tier cfg d) (new_calls self (snd (analyze_image cfg env self b d)))
    \<and> (\<forall>r. fst (analyze_image cfg env self b d) = Inr r \<longrightarrow>
         (\<exists>m. completions (new_calls self (snd (analyze_image cfg env self b d))) = [m]
            \<and> (if d
                then heavy_model (snd (analyze_image cfg env self b d)) = Some m
                  \<and> light_model (snd (analyze_image cfg env self b d)) = None
                else light_model (snd (analyze_image cfg env self b d)) = Some m
                  \<and> heavy_model (snd (analyze_image cfg env self b d)) = None)))"
proof -
  let ?t = "if d then ''heavy'' else ''light''"
  obtain err self1 where load: "load_model cfg env self ?t = (err, self1)"
    by (cases "load_model cfg env self ?t")
  obtain evs where evs: "calls self1 = calls self @ evs"
    and tier: "list_all (event_of_tier cfg d) evs" and none: "completions evs = []"
    using load_model_calls [of cfg env self d] load by auto
  have ok1: "slots_ok self1"
    using load_model_slots_ok [OF ok, of cfg env ?t] load by simp
  show ?thesis
  proof (cases err)
    case (Some e)
    then have "analyze_image cfg env self b d = (Inl e, self1)"
      using load analyze_image_raises by blast
    then show ?thesis
      using evs tier by (simp add: new_calls_def)
  next
    case None
    then obtain m r where m: "(if d then heavy_model self1 else light_model self1) = Some m"
      and res: "analyze_image cfg env self b d
                  = (Inr r, self1\<lparr>calls := calls self1 @ [Completion m (if d then 300 else 150)]\<rparr>)"
      using load analyze_image_returns [of cfg env self d self1 b] by blast
    have m_tier: "event_of_tier cfg d (Completion m (if d then 300 else 150))"
      using ok1 m by (cases d) (auto simp: slots_ok_def is_light_def is_heavy_def)
    have other: "if d then light_model self1 = None else heavy_model self1 = None"
      using ok1 m by (cases d) (auto simp: slots_ok_def)
    show ?thesis
      using res evs tier none m m_tier other
      by (cases d) (simp_all add: new_calls_def completions_append)
  qed
qed

subsection \<open>The dispatcher\<close>

text \<open>
  Claim C2 (tier-preserving failover). When the primary path fails, the dispatcher hands
  the request to \<open>analyze_image\<close> with the request's own flag. Every external call the
  fallback makes then belongs to the tier of the flag: the artifact downloaded, the engine
  constructed, the engine run and its token budget; none belongs to the opposite tier.
  When the fallback returns a result, exactly one completion ran, on the engine resident
  in the slot of the flag's tier, and the other slot is empty.
\<close>

theorem tier_preserving_failover:
  assumes "primary = Inl cloud_error"
    and "c = run cfg ops (init d)"
    and "analyze_food_image_with_search cfg primary env c image_bytes deep_search = (result, c')"
  shows "c' = snd (analyze_image cfg env c image_bytes deep_search)
    \<and> list_all (event_of_tier cfg deep_search) (new_calls c c')
    \<and> (\<forall>r. result = Inr r \<longrightarrow>
         (\<exists>m. completions (new_calls c c') = [m]
            \<and> (if deep_search
                then heavy_model c' = Some m \<and> is_heavy m \<and> light_model c' = None
                else light_model c' = Some m \<and> is_light m \<and> heavy_model c' = None)))"
proof -
  let ?a = "analyze_image cfg env c image_bytes deep_search"
  have ok: "slots_ok c"
    using assms(2) run_slots_ok slots_ok_init by simp
  have c': "c' = snd ?a"
    using assms(1,3)
    by (auto simp: analyze_food_image_with_search_def split: prod.splits sum.splits)
  have res: "result = Inr r \<longleftrightarrow> fst ?a = Inr r" for r
    using assms(1,3)
    by (auto simp: analyze_food_image_with_search_def split: prod.splits sum.splits)
  have ok': "slots_ok c'"
    using c' analyze_image_slots_ok [OF ok] by simp
  have tiers: "is_heavy m" if "heavy_model c' = Some m" for m
    using ok' that by (simp add: slots_ok_def)
  have tiers': "is_light m" if "light_model c' = Some m" for m
    using ok' that by (simp add: slots_ok_def)
  show ?thesis
    using analyze_image_trace [OF ok, of cfg deep_search env image_bytes] c' res tiers tiers'
    by (cases deep_search) auto
qed

lemma light_fallback_run:
  "analyze_food_image_with_search demo_settings (Inl (PyException ''Cloud API Down'')) env_up
     (run demo_settings heavy_history (init ''models'')) [] False
   = (Inr emergency_fallback,
      snd (analyze_image demo_settings env_up (run demo_settings heavy_history (init ''models'')) [] False))"
  by (simp add: analyze_food_image_with_search_def run_def heavy_history_def demo_settings_def
      env_up_def init_def analyze_image_def load_model_def get_model_path_def Let_def)

theorem tier_preserving_failover_witness:
  "\<exists>m. completions (new_calls (run demo_settings heavy_history (init ''models''))
          (snd (analyze_image demo_settings env_up
                  (run demo_settings heavy_history (init ''models'')) [] False))) = [m]
     \<and> is_light m
     \<and> heavy_model (snd (analyze_image demo_settings env_up
                  (run demo_settings heavy_history (init ''models'')) [] False)) = None"
  using tier_preserving_failover [OF refl refl light_fallback_run] by auto

text \<open>
  Claim C3 (terminal failure). When the primary path fails and the local path raises,
  whatever the two exceptions are, the dispatcher raises the one "all systems failed"
  error, an \<open>HTTPException\<close> of status 500, and the route answers an image upload with
  an \<open>HTTPException\<close> of status 500 made from it; neither returns a result.
\<close>

theorem all_systems_failed:
  assumes "primary = Inl cloud_error"
    and "fst (analyze_image cfg env local_client image_bytes deep_search) = Inl local_error"
    and "content_type upload = Some ct" and "startswith ct ''image/''"
    and "read upload = Inr image_bytes"
  shows "fst (analyze_food_image_with_search cfg primary env local_client image_bytes deep_search)
           = Inl (HTTPException 500 ''All AI systems failed'')
    \<and> fst (analyze_food (\<lambda>b f c. analyze_food_image_with_search cfg primary env c b f)
              str upload deep_search local_client)
           = Inl (HTTPException 500 (str (HTTPException 500 ''All AI systems failed'')))"
  using assms
  by (auto simp: analyze_food_image_with_search_def analyze_food_def split: prod.splits sum.splits)

lemma local_down_run:
  "fst (analyze_image demo_settings env_down (init ''models'') [] True)
     = Inl (PyException ''connection refused'')"
  by (simp add: demo_settings_def env_down_def init_def analyze_image_def load_model_def
      get_model_path_def Let_def)

theorem all_systems_failed_witness:
  "fst (analyze_food
          (\<lambda>b f c. analyze_food_image_with_search demo_settings
                      (Inl (PyException ''Cloud Down'')) env_down c b f)
          (\<lambda>e. ''error'')
          \<lparr>filename = ''meal.jpg'', content_type = Some ''image/jpeg'', read = Inr []\<rparr>
          True (init ''models''))
     = Inl (HTTPException 500 ''error'')"
  using all_systems_failed [OF refl local_down_run, where
      upload = "\<lparr>filename = ''meal.jpg'', content_type = Some ''image/jpeg'', read = Inr []\<rparr>"
      and ct = "''image/jpeg''" and str = "\<lambda>e. ''error''"]
  by (simp add: startswith_def)

subsection \<open>Which local failures escape\<close>

lemma load_model_raises:
  assumes "fst (load_model cfg env self (if d then ''heavy'' else ''light'')) = Some e"
  shows "hf_hub_download env
           (if d then LOCAL_MODEL_HEAVY_REPO cfg else LOCAL_MODEL_LIGHT_REPO cfg)
           (if d then LOCAL_MODEL_HEAVY_FILENAME cfg else LOCAL_MODEL_LIGHT_FILENAME cfg)
           (models_dir self) = Inl e
       \<or> (\<exists>path. \<not> d \<and> MoondreamChatHandler env path = Some e)
       \<or> (\<exists>m. Llama_init env m = Some e)"
  using assms
  by (cases d)
     (auto simp: load_model_def get_model_path_def Let_def
        split: if_splits sum.splits option.splits)

text \<open>
  Claim C10. \<open>analyze_image\<close> raises exactly when its load raises, and with the same
  exception, which is then the one the artifact download, the chat handler's constructor
  or the engine's constructor raised. Once the load has returned, \<open>analyze_image\<close>
  returns a result; when the completion call of the resident engine raises, that result
  is the fixed emergency dict. So the dispatcher (as the spec describes it) reaches its
  terminal error only when the primary path failed and the local load raised.
\<close>

theorem local_inference_never_raises:
  "(fst (analyze_image cfg env self image_bytes deep_search) = Inl e
      \<longleftrightarrow> fst (load_model cfg env self (if deep_search then ''heavy'' else ''light'')) = Some e)
   \<and> (fst (analyze_image cfg env self image_bytes deep_search) = Inl e \<longrightarrow>
        hf_hub_download env
           (if deep_search then LOCAL_MODEL_HEAVY_REPO cfg else LOCAL_MODEL_LIGHT_REPO cfg)
           (if deep_search then LOCAL_MODEL_HEAVY_FILENAME cfg else LOCAL_MODEL_LIGHT_FILENAME cfg)
           (models_dir self) = Inl e
        \<or> (\<exists>path. \<not> deep_search \<and> MoondreamChatHandler env path = Some e)
        \<or> (\<exists>m. Llama_init env m = Some e))
   \<and> (fst (load_model cfg env self (if deep_search then ''heavy'' else ''light'')) = None \<longrightarrow>
        (\<exists>r. fst (analyze_image cfg env self image_bytes deep_search) = Inr r))
   \<and> (\<forall>self1 m x.
         load_model cfg env self (if deep_search then ''heavy'' else ''light'') = (None, self1)
         \<and> (if deep_search then heavy_model self1 else light_model self1) = Some m
         \<and> create_chat_completion env m
              \<lparr>image_data = image_bytes, max_tokens = (if deep_search then 300 else 150),
               temperature = 2 / 10\<rparr> = Inl x
         \<longrightarrow> fst (analyze_image cfg env self image_bytes deep_search) = Inr emergency_fallback)
   \<and> (\<forall>primary x.
         fst (analyze_food_image_with_search cfg primary env self image_bytes deep_search) = Inl x
         \<longrightarrow> (\<exists>cloud_error local_error. primary = Inl cloud_error
               \<and> fst (load_model cfg env self (if deep_search then ''heavy'' else ''light''))
                   = Some local_error))
   \<and> emergency_fallback =
       JObj [(''overall_description'', JStr ''Error in local analysis.''),
             (''total_calories_estimate'', JStr ''Unknown''),
             (''items'', JArr [JObj [(''name'', JStr ''Unidentified''),
                                     (''nutrition'', JObj []),
                                     (''description'', JStr ''Analysis failed'')]])]"
proof -
  let ?t = "if deep_search then ''heavy'' else ''light''"
  let ?a = "analyze_image cfg env self image_bytes deep_search"
  obtain err self1 where load: "load_model cfg env self ?t = (err, self1)"
    by (cases "load_model cfg env self ?t")
  have iff: "fst ?a = Inl e \<longleftrightarrow> fst (load_model cfg env self ?t) = Some e"
  proof (cases err)
    case None
    then show ?thesis
      using load analyze_image_returns [of cfg env self deep_search self1 image_bytes] by auto
  next
    case (Some e')
    then show ?thesis
      using load analyze_image_raises [of cfg env self deep_search e' self1 image_bytes] by auto
  qed
  have cause: "fst ?a = Inl e \<longrightarrow>
        hf_hub_download env
           (if deep_search then LOCAL_MODEL_HEAVY_REPO cfg else LOCAL_MODEL_LIGHT_REPO cfg)
           (if deep_search then LOCAL_MODEL_HEAVY_FILENAME cfg else LOCAL_MODEL_LIGHT_FILENAME cfg)
           (models_dir self) = Inl e
        \<or> (\<exists>path. \<not> deep_search \<and> MoondreamChatHandler env path = Some e)
        \<or> (\<exists>m. Llama_init env m = Some e)"
    using iff load_model_raises [of cfg env self deep_search e] by blast
  have returns: "fst (load_model cfg env self ?t) = None \<longrightarrow> (\<exists>r. fst ?a = Inr r)"
    using load analyze_image_returns [of cfg env self deep_search self1 image_bytes] by auto
  have swallowed: "fst ?a = Inr emergency_fallback"
    if "load_model cfg env self ?t = (None, s1)"
      and "(if deep_search then heavy_model s1 else light_model s1) = Some m"
      and "create_chat_completion env m
              \<lparr>image_data = image_bytes, max_tokens = (if deep_search then 300 else 150),
               temperature = 2 / 10\<rparr> = Inl x" for s1 m x
    using that by (cases deep_search) (simp_all add: analyze_image_def Let_def)
  have terminal: "\<exists>cloud_error local_error. primary = Inl cloud_error
        \<and> fst (load_model cfg env self ?t) = Some local_error"
    if "fst (analyze_food_image_with_search cfg primary env self image_bytes deep_search) = Inl x"
    for primary x
  proof (cases err)
    case None
    then obtain r where "fst ?a = Inr r"
      using load returns by auto
    then show ?thesis
      using that
      by (auto simp: analyze_food_image_with_search_def split: sum.splits prod.splits)
  next
    case (Some e')
    then show ?thesis
      using that load
      by (auto simp: analyze_food_image_with_search_def split: sum.splits prod.splits)
  qed
  show ?thesis
    using iff cause returns swallowed terminal by (auto simp: emergency_fallback_def)
qed

lemma local_up_load:
  "load_model demo_settings env_up (init ''models'') ''light''
     = (None, snd (load_model demo_settings env_up (init ''models'') ''light''))
   \<and> light_model (snd (load_model demo_settings env_up (init ''models'') ''light''))
     = Some \<lparr>model_path = ''models/light.gguf'', n_ctx = 2048, n_gpu_layers = 0, verbose = False\<rparr>"
  by (simp add: demo_settings_def env_up_def init_def load_model_def get_model_path_def Let_def)

lemma local_up_completion:
  "create_chat_completion env_up m req = Inl (PyException ''out of memory'')"
  by (simp add: env_up_def)

lemma local_down_raises:
  "fst (load_model demo_settings env_down (init ''models'') ''heavy'')
     = Some (PyException ''connection refused'')"
  by (simp add: demo_settings_def env_down_def init_def load_model_def get_model_path_def Let_def)

theorem local_inference_never_raises_witness:
  "fst (analyze_image demo_settings env_up (init ''models'') [] False) = Inr emergency_fallback
   \<and> fst (analyze_image demo_settings env_down (init ''models'') [1, 2] True)
       = Inl (PyException ''connection refused'')
   \<and> hf_hub_download env_down ''repo/heavy'' ''heavy.gguf'' ''models''
       = Inl (PyException ''connection refused'')"
proof -
  note up = local_inference_never_raises [of demo_settings env_up "init ''models''" "[]" False]
  have 1: "fst (analyze_image demo_settings env_up (init ''models'') [] False)
             = Inr emergency_fallback"
    using up local_up_load local_up_completion by (metis (full_types))
  note down = local_inference_never_raises
      [of demo_settings env_down "init ''models''" "[1, 2]" True "PyException ''connection refused''"]
  have 2: "fst (analyze_image demo_settings env_down (init ''models'') [1, 2] True)
             = Inl (PyException ''connection refused'')"
    using down local_down_raises by simp
  have 3: "hf_hub_download env_down ''repo/heavy'' ''heavy.gguf'' ''models''
             = Inl (PyException ''connection refused'')"
    by (simp add: env_down_def)
  show ?thesis using 1 2 3 by blast
qed

subsection \<open>Normalising the model's text\<close>

lemma takeWhile_until: "c \<notin> set pre \<Longrightarrow> takeWhile (\<lambda>x. x \<noteq> c) (pre @ c # rest) = pre"
  by (induction pre) auto

lemma py_find_first: "c \<notin> set pre \<Longrightarrow> py_find (pre @ c # rest) c = int (length pre)"
  by (simp add: py_find_def takeWhile_until)

lemma py_rfind_last: "c \<notin> set post \<Longrightarrow> py_rfind (pre @ c # post) c = int (length pre)"
  using takeWhile_until [of c "rev post" "rev pre"] by (simp add: py_rfind_def)

lemma py_slice_nonneg:
  "0 \<le> i \<Longrightarrow> 0 \<le> j \<Longrightarrow> py_slice s i j = take (nat j - nat i) (drop (nat i) s)"
  by (auto simp: py_slice_def Let_def min_def nat_diff_distrib')

lemma py_slice_empty: "0 \<le> i \<Longrightarrow> 0 \<le> j \<Longrightarrow> j \<le> i \<Longrightarrow> py_slice s i j = []"
  by (simp add: py_slice_nonneg)

text \<open>The text between the first opening and the last closing brace is what is parsed.\<close>

lemma parse_local_response_braces:
  assumes "content = pre @ CHR ''{'' # mid @ CHR ''}'' # post"
    and "CHR ''{'' \<notin> set pre" and "CHR ''}'' \<notin> set post"
  shows "parse_local_response loads content =
           (case loads (CHR ''{'' # mid @ [CHR ''}'']) of
              Some v \<Rightarrow> v
            | None \<Rightarrow> parse_fallback content)"
proof -
  have start: "py_find content (CHR ''{'') = int (length pre)"
    using assms(1,2) by (simp add: py_find_first)
  have "content = (pre @ CHR ''{'' # mid) @ CHR ''}'' # post"
    using assms(1) by simp
  then have stop: "py_rfind content (CHR ''}'') = int (length pre + length mid + 1)"
    using assms(3) py_rfind_last [of "CHR ''}''" post "pre @ CHR ''{'' # mid"] by simp
  have "py_slice content (int (length pre)) (int (length pre + length mid + 1) + 1)
          = CHR ''{'' # mid @ [CHR ''}'']"
    using assms(1) by (simp add: py_slice_nonneg nat_add_distrib)
  then show ?thesis
    using start stop by (simp add: parse_local_response_def Let_def)
qed

text \<open>No closing brace after the first opening one: the slice is empty.\<close>

lemma parse_local_response_unclosed:
  assumes "content = pre @ CHR ''{'' # rest"
    and "CHR ''{'' \<notin> set pre" and "CHR ''}'' \<notin> set rest"
  shows "parse_local_response loads content =
           (case loads [] of Some v \<Rightarrow> v | None \<Rightarrow> parse_fallback content)"
proof -
  have start: "py_find content (CHR ''{'') = int (length pre)"
    using assms(1,2) by (simp add: py_find_first)
  have stop: "- 1 \<le> py_rfind content (CHR ''}'') \<and> py_rfind content (CHR ''}'') < int (length pre)"
  proof (cases "CHR ''}'' \<in> set pre")
    case True
    then obtain p1 p2 where p: "pre = p1 @ CHR ''}'' # p2" and "CHR ''}'' \<notin> set p2"
      using split_list_last by fastforce
    then have "content = p1 @ CHR ''}'' # (p2 @ CHR ''{'' # rest)"
      and "CHR ''}'' \<notin> set (p2 @ CHR ''{'' # rest)"
      using assms(1,3) by simp_all
    then have "py_rfind content (CHR ''}'') = int (length p1)"
      using py_rfind_last by blast
    then show ?thesis using p by simp
  next
    case False
    then have "CHR ''}'' \<notin> set content"
      using assms(1,3) by simp
    then show ?thesis by (simp add: py_rfind_def)
  qed
  then have "py_slice content (int (length pre)) (py_rfind content (CHR ''}'') + 1) = []"
    by (intro py_slice_empty) simp_all
  then show ?thesis
    using start stop by (simp add: parse_local_response_def Let_def)
qed

lemma parse_local_response_no_brace:
  "CHR ''{'' \<notin> set content \<Longrightarrow> parse_local_response loads content = parse_fallback content"
  by (simp add: parse_local_response_def py_find_def)

lemma parse_local_response_cases:
  "parse_local_response loads content = parse_fallback content
   \<or> (\<exists>s. loads s = Some (parse_local_response loads content))"
  by (auto simp: parse_local_response_def Let_def split: option.splits)

lemma example_text_split:
  "example_text = ''noise '' @ CHR ''{'' # ('' '' @ quoted ''overall_description'' @ '': '' @ quoted ''apple'' @ '' '') @ CHR ''}'' # '' trailing''
   \<and> example_json = CHR ''{'' # ('' '' @ quoted ''overall_description'' @ '': '' @ quoted ''apple'' @ '' '') @ [CHR ''}'']"
  by (simp add: example_text_def example_json_def)

text \<open>
  Claim C7 (output normalisation). For every text, \<open>_parse_local_response\<close> hands the
  part from the first opening brace to the last closing brace to \<open>json.loads\<close> and
  returns what it parses; the spec's example text yields the dict with the one key
  \<open>overall_description\<close> and value \<open>apple\<close> once \<open>json.loads\<close> parses the
  document between its braces. When \<open>json.loads\<close> raises, when the text has no
  opening brace, or when no closing brace follows the first opening one (the slice is
  then empty, which \<open>json.loads\<close> rejects), the result is the degraded dict: the first
  200 characters of the text followed by three dots, and the note that flags the
  fallback. The function is total: every text gets either a parsed value or the degraded
  dict.
\<close>

theorem output_normalization:
  "(content = pre @ CHR ''{'' # mid @ CHR ''}'' # post
      \<and> CHR ''{'' \<notin> set pre \<and> CHR ''}'' \<notin> set post
      \<longrightarrow> parse_local_response loads content =
            (case loads (CHR ''{'' # mid @ [CHR ''}'']) of
               Some v \<Rightarrow> v
             | None \<Rightarrow> parse_fallback content))
   \<and> (loads example_json = Some example_dict
        \<longrightarrow> parse_local_response loads example_text = example_dict)
   \<and> (CHR ''{'' \<notin> set content
        \<longrightarrow> parse_local_response loads content = parse_fallback content)
   \<and> (content = pre @ CHR ''{'' # rest \<and> CHR ''{'' \<notin> set pre \<and> CHR ''}'' \<notin> set rest
        \<and> loads [] = None
        \<longrightarrow> parse_local_response loads content = parse_fallback content)
   \<and> (parse_local_response loads content = parse_fallback content
        \<or> (\<exists>s. loads s = Some (parse_local_response loads content)))
   \<and> parse_fallback content =
        JObj [(''overall_description'', JStr (take 200 content @ ''...'')),
              (''total_calories_estimate'', JStr ''Estimated''),
              (''items'', JArr []),
              (''note'', JStr ''Raw output returned due to parsing error.'')]"
proof -
  have braces: "parse_local_response loads content =
            (case loads (CHR ''{'' # mid @ [CHR ''}'']) of
               Some v \<Rightarrow> v
             | None \<Rightarrow> parse_fallback content)"
    if "content = pre @ CHR ''{'' # mid @ CHR ''}'' # post"
      and "CHR ''{'' \<notin> set pre" and "CHR ''}'' \<notin> set post"
    using that by (rule parse_local_response_braces)
  have example: "parse_local_response loads example_text = example_dict"
    if "loads example_json = Some example_dict"
    using parse_local_response_braces [of example_text "''noise ''"
        "'' '' @ quoted ''overall_description'' @ '': '' @ quoted ''apple'' @ '' ''"
        "'' trailing''" loads]
      example_text_split that
    by simp
  have unclosed: "parse_local_response loads content = parse_fallback content"
    if "content = pre @ CHR ''{'' # rest" and "CHR ''{'' \<notin> set pre"
      and "CHR ''}'' \<notin> set rest" and "loads [] = None"
    using parse_local_response_unclosed [OF that(1,2,3), of loads] that(4) by simp
  show ?thesis
    using braces example unclosed parse_local_response_no_brace [of content loads]
      parse_local_response_cases [of loads content]
    by (simp add: parse_fallback_def)
qed

theorem output_normalization_witness:
  "parse_local_response example_loads example_text = example_dict
   \<and> parse_local_response example_loads ''I see an apple'' = parse_fallback ''I see an apple''
   \<and> parse_local_response example_loads ''{ unclosed'' = parse_fallback ''{ unclosed''
   \<and> parse_local_response example_loads ''a {b} c'' = parse_fallback ''a {b} c''"
proof -
  have 1: "parse_local_response example_loads example_text = example_dict"
    using output_normalization [of example_text "''noise ''"
        "'' '' @ quoted ''overall_description'' @ '': '' @ quoted ''apple'' @ '' ''"
        "'' trailing''" example_loads "[]"]
    by (simp add: example_loads_def)
  have 2: "parse_local_response example_loads ''I see an apple'' = parse_fallback ''I see an apple''"
    using output_normalization [of "''I see an apple''" "[]" "[]" "[]" example_loads "[]"]
    by simp
  have 3: "parse_local_response example_loads ''{ unclosed'' = parse_fallback ''{ unclosed''"
    using output_normalization [of "''{ unclosed''" "[]" "[]" "[]" example_loads "'' unclosed''"]
    by (simp add: example_loads_def example_json_def)
  have 4: "parse_local_response example_loads ''a {b} c'' = parse_fallback ''a {b} c''"
    using output_normalization [of "''a {b} c''" "''a ''" "''b''" "'' c''" example_loads "[]"]
    by (simp add: example_loads_def example_json_def)
  show ?thesis using 1 2 3 4 by blast
qed

section \<open>The search client\<close>

subsection \<open>Without a key\<close>

lemma wrapped_key_missing:
  "key_missing (api_key self)
   \<Longrightarrow> search_food_info_wrapped env self query = (error_result ''API Key missing'', self)"
  by (simp add: search_food_info_wrapped_def)

text \<open>
  A client without a key whose cache holds nothing but the "unavailable" dict: a lookup
  answers with that dict and changes the cache only.
\<close>

lemma search_food_info_key_missing:
  assumes "key_missing (api_key self)"
    and "list_all (\<lambda>kv. snd kv = error_result ''API Key missing'') (cache self)"
  shows "fst (search_food_info env self query) = error_result ''API Key missing''
    \<and> api_key (snd (search_food_info env self query)) = api_key self
    \<and> trace (snd (search_food_info env self query)) = trace self
    \<and> last_request_ts (snd (search_food_info env self query)) = last_request_ts self
    \<and> monotonic (snd (search_food_info env self query)) = monotonic self
    \<and> list_all (\<lambda>kv. snd kv = error_result ''API Key missing'')
          (cache (snd (search_food_info env self query)))"
proof (cases "map_of (cache self) query")
  case None
  have "list_all (\<lambda>kv. snd kv = error_result ''API Key missing'')
          (tl (cache self @ [(query, error_result ''API Key missing'')]))"
    using assms(2) by (cases "cache self") simp_all
  then show ?thesis
    using None assms by (simp add: search_food_info_def wrapped_key_missing)
next
  case (Some v)
  then have "(query, v) \<in> set (cache self)"
    by (rule map_of_SomeD)
  then have v: "v = error_result ''API Key missing''"
    using assms(2) by (auto simp: list_all_iff)
  have "list_all (\<lambda>kv. snd kv = error_result ''API Key missing'')
          (filter (\<lambda>kv. fst kv \<noteq> query) (cache self))"
    using assms(2) by (simp add: list_all_iff)
  then show ?thesis
    using Some v by (simp add: search_food_info_def)
qed

lemma lookups_key_missing:
  assumes "key_missing (api_key self)"
    and "list_all (\<lambda>kv. snd kv = error_result ''API Key missing'') (cache self)"
  shows "api_key (lookups qs self) = api_key self
    \<and> trace (lookups qs self) = trace self
    \<and> last_request_ts (lookups qs self) = last_request_ts self
    \<and> monotonic (lookups qs self) = monotonic self
    \<and> list_all (\<lambda>kv. snd kv = error_result ''API Key missing'') (cache (lookups qs self))"
  using assms
proof (induction qs arbitrary: self)
  case Nil
  then show ?case by (simp add: lookups_def)
next
  case (Cons q qs)
  obtain env query where q: "q = (env, query)" by (cases q)
  let ?s = "snd (search_food_info env self query)"
  note step = search_food_info_key_missing [OF Cons.prems, of env query]
  have "key_missing (api_key ?s)"
    and "list_all (\<lambda>kv. snd kv = error_result ''API Key missing'') (cache ?s)"
    using step Cons.prems(1) by simp_all
  then have "api_key (lookups qs ?s) = api_key ?s
    \<and> trace (lookups qs ?s) = trace ?s
    \<and> last_request_ts (lookups qs ?s) = last_request_ts ?s
    \<and> monotonic (lookups qs ?s) = monotonic ?s
    \<and> list_all (\<lambda>kv. snd kv = error_result ''API Key missing'') (cache (lookups qs ?s))"
    by (rule Cons.IH)
  moreover have "lookups (q # qs) self = lookups qs ?s"
    using q by (simp add: lookups_def)
  ultimately show ?case
    using step by simp
qed

text \<open>
  Claim C8 (missing credential). A client built without a search key (the option absent
  or empty) answers every lookup, after any history of lookups, with the dict
  \<open>{"error": "API Key missing"}\<close>: it returns (it does not raise), it issues no GET, it
  never sleeps, it leaves the throttle's stamp and the clock as \<open>__init__\<close> set them.
  The function under the cache decorator returns that dict and leaves any key-less
  client unchanged.
\<close>

theorem missing_credential_short_circuit:
  assumes "key_missing (SERPAPI_API_KEY cfg)"
  shows "fst (search_food_info env (lookups qs (SerpAPIWrapper_init cfg t0)) query)
           = JObj [(''error'', JStr ''API Key missing'')]
    \<and> trace (snd (search_food_info env (lookups qs (SerpAPIWrapper_init cfg t0)) query)) = []
    \<and> last_request_ts (snd (search_food_info env (lookups qs (SerpAPIWrapper_init cfg t0)) query)) = 0
    \<and> monotonic (snd (search_food_info env (lookups qs (SerpAPIWrapper_init cfg t0)) query)) = t0
    \<and> (\<forall>self. key_missing (api_key self) \<longrightarrow>
          search_food_info_wrapped env self query = (JObj [(''error'', JStr ''API Key missing'')], self))"
proof -
  let ?init = "SerpAPIWrapper_init cfg t0"
  let ?c = "lookups qs ?init"
  have key: "key_missing (api_key ?init)"
    using assms by (simp add: SerpAPIWrapper_init_def)
  have empty: "list_all (\<lambda>kv. snd kv = error_result ''API Key missing'') (cache ?init)"
    by (simp add: SerpAPIWrapper_init_def)
  note hist = lookups_key_missing [OF key empty, of qs]
  have key': "key_missing (api_key ?c)"
    using hist key by simp
  have all: "list_all (\<lambda>kv. snd kv = error_result ''API Key missing'') (cache ?c)"
    using hist by simp
  note last = search_food_info_key_missing [OF key' all, of env query]
  have 1: "fst (search_food_info env ?c query) = JObj [(''error'', JStr ''API Key missing'')]"
    using last by (simp add: error_result_def)
  have 2: "trace (snd (search_food_info env ?c query)) = []"
    using last hist by (simp add: SerpAPIWrapper_init_def)
  have 3: "last_request_ts (snd (search_food_info env ?c query)) = 0"
    using last hist by (simp add: SerpAPIWrapper_init_def)
  have 4: "monotonic (snd (search_food_info env ?c query)) = t0"
    using last hist by (simp add: SerpAPIWrapper_init_def)
  have 5: "search_food_info_wrapped env self query = (JObj [(''error'', JStr ''API Key missing'')], self)"
    if "key_missing (api_key self)" for self
    using wrapped_key_missing [OF that] by (simp add: error_result_def)
  show ?thesis
    using 1 2 3 4 5 by blast
qed

theorem missing_credential_short_circuit_witness:
  "fst (search_food_info env_serving
          (lookups [(env_serving, ''apple''), (env_flaky, ''pear'')]
             (SerpAPIWrapper_init keyless_settings 5)) ''apple'')
     = JObj [(''error'', JStr ''API Key missing'')]
   \<and> trace (snd (search_food_info env_serving
          (lookups [(env_serving, ''apple''), (env_flaky, ''pear'')]
             (SerpAPIWrapper_init keyless_settings 5)) ''apple'')) = []
   \<and> search_food_info_wrapped env_serving (SerpAPIWrapper_init keyless_settings 5) ''fig''
     = (JObj [(''error'', JStr ''API Key missing'')], SerpAPIWrapper_init keyless_settings 5)"
proof -
  have key: "key_missing (SERPAPI_API_KEY keyless_settings)"
    by (simp add: keyless_settings_def key_missing_def)
  have key': "key_missing (api_key (SerpAPIWrapper_init keyless_settings 5))"
    by (simp add: keyless_settings_def key_missing_def SerpAPIWrapper_init_def)
  show ?thesis
    using missing_credential_short_circuit [OF key, of env_serving
        "[(env_serving, ''apple''), (env_flaky, ''pear'')]" 5 "''apple''"]
      missing_credential_short_circuit [OF key, of env_serving "[]" 5 "''fig''"] key'
    by blast
qed

subsection \<open>The retry loop\<close>

lemma gets_append: "gets (xs @ ys) = gets xs @ gets ys"
  by (induction xs rule: gets.induct) simp_all

lemma backoffs_append: "backoffs (xs @ ys) = backoffs xs @ backoffs ys"
  by (induction xs rule: backoffs.induct) simp_all

text \<open>\<open>_throttle\<close> touches the clock, the stamp and the trace (with a sleep at most).\<close>

lemma throttle_fields:
  "api_key (throttle self) = api_key self
   \<and> max_retries (throttle self) = max_retries self
   \<and> backoff_factor (throttle self) = backoff_factor self
   \<and> min_interval (throttle self) = min_interval self
   \<and> cache (throttle self) = cache self"
  by (simp add: throttle_def Let_def)

lemma throttle_trace:
  "trace (throttle self) = trace self @ new_io self (throttle self)
   \<and> gets (new_io self (throttle self)) = []
   \<and> backoffs (new_io self (throttle self)) = []"
  by (simp add: throttle_def Let_def new_io_def)

lemma new_io_trans:
  assumes "trace b = trace a @ new_io a b" and "trace c = trace b @ new_io b c"
  shows "trace c = trace a @ new_io a c \<and> new_io a c = new_io a b @ new_io b c"
proof -
  have "trace c = trace a @ (new_io a b @ new_io b c)"
    using assms by simp
  then show ?thesis
    by (simp add: new_io_def [of a c])
qed

text \<open>One pass of the loop whose reply ends it with an exception.\<close>

lemma attempts_fails:
  assumes "try_reply (attempt < max_retries self)
             (snd (net env (length (gets (trace self))) query)) = Some (Inl e)"
    and "\<not> retries_on (attempt < max_retries self) e"
  shows "fst (attempts env query (attempt # rest) backoff self) = Inl e
    \<and> trace (snd (attempts env query (attempt # rest) backoff self))
        = trace self @ new_io self (snd (attempts env query (attempt # rest) backoff self))
    \<and> length (gets (new_io self (snd (attempts env query (attempt # rest) backoff self)))) = 1
    \<and> backoffs (new_io self (snd (attempts env query (attempt # rest) backoff self))) = []
    \<and> cache (snd (attempts env query (attempt # rest) backoff self)) = cache self"
proof -
  let ?t = "throttle self"
  let ?s2 = "?t\<lparr>monotonic := monotonic ?t + fst (net env (length (gets (trace ?t))) query),
               trace := trace ?t @ [Get query (monotonic ?t)]\<rparr>"
  have n: "length (gets (trace ?t)) = length (gets (trace self))"
    using throttle_trace [of self] by (metis append_Nil2 gets_append)
  have res: "attempts env query (attempt # rest) backoff self = (Inl e, ?s2)"
    using assms n by (simp add: Let_def throttle_fields)
  have step: "trace ?s2 = trace ?t @ new_io ?t ?s2" and one: "new_io ?t ?s2 = [Get query (monotonic ?t)]"
    by (simp_all add: new_io_def)
  note tr = new_io_trans [OF conjunct1 [OF throttle_trace [of self]] step]
  show ?thesis
    using res tr one throttle_trace [of self]
    by (simp add: gets_append backoffs_append throttle_fields)
qed

text \<open>
  A network that answers 429 to everything: the loop makes one attempt per element of
  \<open>range(max_retries + 1)\<close> and sleeps between them, each sleep the previous back-off
  times the factor, the first one already multiplied.
\<close>

lemma attempts_rate_limited:
  assumes net: "\<And>n. snd (net env n query) = Response 429 msg body"
  shows "max_retries self = R \<Longrightarrow> k \<le> R \<Longrightarrow> R - k = d \<Longrightarrow>
    fst (attempts env query [k ..< Suc R] b self) = Inl (HTTPStatusError 429 msg)
    \<and> trace (snd (attempts env query [k ..< Suc R] b self))
        = trace self @ new_io self (snd (attempts env query [k ..< Suc R] b self))
    \<and> length (gets (new_io self (snd (attempts env query [k ..< Suc R] b self)))) = Suc d
    \<and> backoffs (new_io self (snd (attempts env query [k ..< Suc R] b self)))
        = map (\<lambda>i. b * backoff_factor self ^ Suc i) [0 ..< d]
    \<and> cache (snd (attempts env query [k ..< Suc R] b self)) = cache self"
proof (induction d arbitrary: k b self)
  case 0
  then have k: "k = R" by simp
  have "try_reply (R < max_retries self) (snd (net env (length (gets (trace self))) query))
          = Some (Inl (HTTPStatusError 429 msg))"
    using net 0 by (simp add: try_reply_def raise_for_status_def)
  moreover have "\<not> retries_on (R < max_retries self) (HTTPStatusError 429 msg)"
    using 0 by simp
  ultimately show ?case
    using attempts_fails [of R self env query "HTTPStatusError 429 msg" "[]" b] k by simp
next
  case (Suc d)
  then have k: "k < R" and upt: "[k ..< Suc R] = k # [Suc k ..< Suc R]"
    by (simp_all add: upt_conv_Cons)
  let ?f = "backoff_factor self"
  let ?t = "throttle self"
  let ?s2 = "?t\<lparr>monotonic := monotonic ?t + fst (net env (length (gets (trace ?t))) query),
               trace := trace ?t @ [Get query (monotonic ?t)]\<rparr>"
  let ?s3 = "?s2\<lparr>monotonic := monotonic ?s2 + b * ?f,
                 trace := trace ?s2 @ [Backoff_sleep (b * ?f)]\<rparr>"
  let ?r = "attempts env query [Suc k ..< Suc R] (b * ?f) ?s3"
  have unfold: "attempts env query [k ..< Suc R] b self = ?r"
    using net k Suc.prems(1) upt
    by (simp add: Let_def try_reply_def throttle_fields)
  have R3: "max_retries ?s3 = R" and f3: "backoff_factor ?s3 = ?f" and c3: "cache ?s3 = cache self"
    using Suc.prems(1) by (simp_all add: throttle_fields)
  have IH: "fst ?r = Inl (HTTPStatusError 429 msg)
    \<and> trace (snd ?r) = trace ?s3 @ new_io ?s3 (snd ?r)
    \<and> length (gets (new_io ?s3 (snd ?r))) = Suc d
    \<and> backoffs (new_io ?s3 (snd ?r)) = map (\<lambda>i. b * ?f * ?f ^ Suc i) [0 ..< d]
    \<and> cache (snd ?r) = cache self"
    using Suc.IH [of ?s3 "Suc k" "b * ?f"] R3 f3 c3 k Suc.prems(3) by simp
  have step: "trace ?s3 = trace ?t @ new_io ?t ?s3"
    and two: "new_io ?t ?s3 = [Get query (monotonic ?t), Backoff_sleep (b * ?f)]"
    by (simp_all add: new_io_def)
  note t3 = new_io_trans [OF conjunct1 [OF throttle_trace [of self]] step]
  note tr = new_io_trans [OF conjunct1 [OF t3] conjunct1 [OF conjunct2 [OF IH]]]
  have gets3: "length (gets (new_io self ?s3)) = 1" and back3: "backoffs (new_io self ?s3) = [b * ?f]"
    using t3 two throttle_trace [of self] by (simp_all add: gets_append backoffs_append)
  have shift: "map (\<lambda>i. b * ?f ^ Suc i) [0 ..< Suc d]
                 = (b * ?f) # map (\<lambda>i. b * ?f * ?f ^ Suc i) [0 ..< d]"
    by (simp add: upt_conv_Cons map_Suc_upt [symmetric] mult.assoc del: upt_Suc)
  show ?case
    using unfold IH tr gets3 back3 shift
    by (simp add: gets_append backoffs_append del: upt_Suc)
qed

text \<open>A lookup the cache does not serve runs the function under the decorator.\<close>

lemma search_food_info_miss:
  assumes "map_of (cache self) query = None"
  shows "fst (search_food_info env self query) = fst (search_food_info_wrapped env self query)
    \<and> trace (snd (search_food_info env self query))
        = trace (snd (search_food_info_wrapped env self query))"
  using assms by (simp add: search_food_info_def split: prod.splits)

lemma new_io_cong: "trace a = trace b \<Longrightarrow> new_io self a = new_io self b"
  by (simp add: new_io_def)

lemma wrapped_raises:
  assumes "\<not> key_missing (api_key self)"
    and "fst (attempts env query [0 ..< max_retries self + 1] (min_interval self) self) = Inl e"
  shows "fst (search_food_info_wrapped env self query) = error_result (str_exn env e)
    \<and> snd (search_food_info_wrapped env self query)
        = snd (attempts env query [0 ..< max_retries self + 1] (min_interval self) self)"
  using assms
  by (auto simp: search_food_info_wrapped_def simp del: upt_Suc split: prod.splits sum.splits)

text \<open>
  Claim C5, as amended (retry bound and back-off schedule). For a client with a key and
  \<open>max_retries = 2\<close>, on a lookup the cache does not serve: when every attempt is
  answered with 429, the lookup makes exactly three GETs and returns the error dict of
  the 429; it sleeps the back-off twice, first \<open>min_interval * backoff_factor\<close>, then
  \<open>min_interval * backoff_factor * backoff_factor\<close> (the back-off is multiplied before
  each sleep). When the first attempt raises anything but a 429 status error, or is
  answered with a status that is neither 429 nor a success, the lookup makes that one
  GET, never sleeps a back-off and returns the error dict of that failure.
\<close>

theorem retry_bound_and_backoff:
  assumes "\<not> key_missing (api_key self)"
    and "max_retries self = 2"
    and "map_of (cache self) query = None"
  shows "((\<forall>n. snd (net env n query) = Response 429 msg body) \<longrightarrow>
            fst (search_food_info env self query)
              = JObj [(''error'', JStr (str_exn env (HTTPStatusError 429 msg)))]
          \<and> length (gets (new_io self (snd (search_food_info env self query)))) = 3
          \<and> backoffs (new_io self (snd (search_food_info env self query)))
              = [min_interval self * backoff_factor self,
                 min_interval self * backoff_factor self * backoff_factor self])
    \<and> (snd (net env (length (gets (trace self))) query) = Raises e
          \<and> (\<forall>m. e \<noteq> HTTPStatusError 429 m) \<longrightarrow>
            fst (search_food_info env self query) = JObj [(''error'', JStr (str_exn env e))]
          \<and> length (gets (new_io self (snd (search_food_info env self query)))) = 1
          \<and> backoffs (new_io self (snd (search_food_info env self query))) = [])
    \<and> (snd (net env (length (gets (trace self))) query) = Response status reason body'
          \<and> status \<noteq> 429 \<and> \<not> (200 \<le> status \<and> status < 300) \<longrightarrow>
            fst (search_food_info env self query)
              = JObj [(''error'', JStr (str_exn env (HTTPStatusError status reason)))]
          \<and> length (gets (new_io self (snd (search_food_info env self query)))) = 1
          \<and> backoffs (new_io self (snd (search_food_info env self query))) = [])"
proof -
  let ?loop = "attempts env query [0 ..< max_retries self + 1] (min_interval self) self"
  let ?s = "snd (search_food_info env self query)"
  have list: "[0 ..< max_retries self + 1] = [0 ..< Suc 2]"
    and cons: "[0 ..< max_retries self + 1] = 0 # [1 ..< 3]"
    using assms(2) by (simp_all add: upt_conv_Cons)
  have via: "fst (search_food_info env self query) = error_result (str_exn env x)
      \<and> new_io self ?s = new_io self (snd ?loop)" if "fst ?loop = Inl x" for x
    using wrapped_raises [OF assms(1) that] search_food_info_miss [OF assms(3), of env]
      new_io_cong [of ?s "snd ?loop" self]
    by simp
  have limited: "fst (search_food_info env self query)
              = JObj [(''error'', JStr (str_exn env (HTTPStatusError 429 msg)))]
          \<and> length (gets (new_io self ?s)) = 3
          \<and> backoffs (new_io self ?s)
              = [min_interval self * backoff_factor self,
                 min_interval self * backoff_factor self * backoff_factor self]"
    if "\<forall>n. snd (net env n query) = Response 429 msg body"
  proof -
    note loop = attempts_rate_limited [of env query msg body self 2 0 2 "min_interval self",
        folded list, OF _ assms(2)]
    have "fst ?loop = Inl (HTTPStatusError 429 msg)"
      and "length (gets (new_io self (snd ?loop))) = 3"
      and "backoffs (new_io self (snd ?loop))
             = map (\<lambda>i. min_interval self * backoff_factor self ^ Suc i) [0 ..< 2]"
      using loop that by simp_all
    then show ?thesis
      using via [of "HTTPStatusError 429 msg"]
      by (simp add: error_result_def upt_conv_Cons mult.assoc)
  qed
  have once: "fst (search_food_info env self query) = JObj [(''error'', JStr (str_exn env x))]
          \<and> length (gets (new_io self ?s)) = 1
          \<and> backoffs (new_io self ?s) = []"
    if "try_reply (0 < max_retries self) (snd (net env (length (gets (trace self))) query))
          = Some (Inl x)"
      and "\<not> retries_on (0 < max_retries self) x" for x
    using attempts_fails [OF that, of "[1 ..< 3]" "min_interval self"] via [unfolded cons, of x]
    by (simp add: error_result_def del: attempts.simps upt_Suc)
  have transport: "fst (search_food_info env self query) = JObj [(''error'', JStr (str_exn env e))]
          \<and> length (gets (new_io self ?s)) = 1
          \<and> backoffs (new_io self ?s) = []"
    if "snd (net env (length (gets (trace self))) query) = Raises e"
      and "\<forall>m. e \<noteq> HTTPStatusError 429 m"
  proof (rule once)
    show "try_reply (0 < max_retries self) (snd (net env (length (gets (trace self))) query))
            = Some (Inl e)"
      using that(1) by (simp add: try_reply_def)
    show "\<not> retries_on (0 < max_retries self) e"
      using that(2) by (cases e) simp_all
  qed
  have status: "fst (search_food_info env self query)
              = JObj [(''error'', JStr (str_exn env (HTTPStatusError status reason)))]
          \<and> length (gets (new_io self ?s)) = 1
          \<and> backoffs (new_io self ?s) = []"
    if "snd (net env (length (gets (trace self))) query) = Response status reason body'"
      and "status \<noteq> 429" and "\<not> (200 \<le> status \<and> status < 300)"
  proof (rule once)
    show "try_reply (0 < max_retries self) (snd (net env (length (gets (trace self))) query))
            = Some (Inl (HTTPStatusError status reason))"
      using that by (auto simp: try_reply_def raise_for_status_def)
    show "\<not> retries_on (0 < max_retries self) (HTTPStatusError status reason)"
      using that(2) by simp
  qed
  show ?thesis
    using limited transport status by blast
qed

lemma demo_client_fields:
  "\<not> key_missing (api_key (SerpAPIWrapper_init demo_settings 0))
   \<and> max_retries (SerpAPIWrapper_init demo_settings 0) = 2
   \<and> min_interval (SerpAPIWrapper_init demo_settings 0) = 1
   \<and> backoff_factor (SerpAPIWrapper_init demo_settings 0) = 2
   \<and> map_of (cache (SerpAPIWrapper_init demo_settings 0)) query = None
   \<and> trace (SerpAPIWrapper_init demo_settings 0) = []"
  by (simp add: SerpAPIWrapper_init_def demo_settings_def key_missing_def)

theorem retry_bound_and_backoff_witness:
  "length (gets (new_io (SerpAPIWrapper_init demo_settings 0)
      (snd (search_food_info env_rate_limited (SerpAPIWrapper_init demo_settings 0) ''apple'')))) = 3
   \<and> backoffs (new_io (SerpAPIWrapper_init demo_settings 0)
      (snd (search_food_info env_rate_limited (SerpAPIWrapper_init demo_settings 0) ''apple''))) = [2, 4]
   \<and> fst (search_food_info env_unreachable (SerpAPIWrapper_init demo_settings 0) ''apple'')
       = JObj [(''error'', JStr ''timed out'')]
   \<and> fst (search_food_info env_flaky (SerpAPIWrapper_init demo_settings 0) ''apple'')
       = JObj [(''error'', JStr ''Internal Server Error'')]"
proof -
  let ?c = "SerpAPIWrapper_init demo_settings 0"
  note f = demo_client_fields [of "''apple''"]
  have k: "\<not> key_missing (api_key ?c)" and r: "max_retries ?c = 2"
    and m: "map_of (cache ?c) ''apple'' = None"
    using f by simp_all
  have limited: "\<forall>n. snd (net env_rate_limited n ''apple'')
      = Response 429 ''Too Many Requests'' (Inr JNull)"
    by (simp add: env_rate_limited_def)
  have unreachable: "snd (net env_unreachable (length (gets (trace ?c))) ''apple'')
      = Raises (HTTPError ''timed out'') \<and> (\<forall>m. HTTPError ''timed out'' \<noteq> HTTPStatusError 429 m)"
    by (simp add: env_unreachable_def)
  have flaky: "snd (net env_flaky (length (gets (trace ?c))) ''apple'')
      = Response 500 ''Internal Server Error'' (Inr JNull)
      \<and> (500::nat) \<noteq> 429 \<and> \<not> (200 \<le> (500::nat) \<and> (500::nat) < 300)"
    using f by (simp add: env_flaky_def)
  have 1: "length (gets (new_io ?c (snd (search_food_info env_rate_limited ?c ''apple'')))) = 3
    \<and> backoffs (new_io ?c (snd (search_food_info env_rate_limited ?c ''apple''))) = [2, 4]"
    using retry_bound_and_backoff [OF k r m, where env = env_rate_limited
        and msg = "''Too Many Requests''" and body = "Inr JNull"]
      limited f
    by simp
  have 2: "fst (search_food_info env_unreachable ?c ''apple'') = JObj [(''error'', JStr ''timed out'')]"
    using retry_bound_and_backoff [OF k r m, where env = env_unreachable
        and e = "HTTPError ''timed out''"]
      unreachable
    by (simp add: env_unreachable_def)
  have 3: "fst (search_food_info env_flaky ?c ''apple'')
       = JObj [(''error'', JStr ''Internal Server Error'')]"
    using retry_bound_and_backoff [OF k r m, where env = env_flaky and status = 500
        and reason = "''Internal Server Error''" and body' = "Inr JNull"]
      flaky
    by (simp add: env_flaky_def)
  show ?thesis using 1 2 3 by blast
qed

text \<open>
  The claim as the spec states it fails: with \<open>min_interval = 1\<close>, \<open>backoff_factor = 2\<close>,
  \<open>max_retries = 2\<close> and a network that always answers 429, the two back-off sleeps
  are 2 and 4, not 1 and 2.
\<close>

theorem retry_backoff_counterexample:
  "(\<forall>n. snd (net env_rate_limited n ''apple'') = Response 429 ''Too Many Requests'' (Inr JNull))
   \<and> max_retries (SerpAPIWrapper_init demo_settings 0) = 2
   \<and> [min_interval (SerpAPIWrapper_init demo_settings 0),
       min_interval (SerpAPIWrapper_init demo_settings 0)
         * backoff_factor (SerpAPIWrapper_init demo_settings 0)] = [1, 2]
   \<and> backoffs (trace (snd (search_food_info env_rate_limited
         (SerpAPIWrapper_init demo_settings 0) ''apple''))) = [2, 4]
   \<and> length (gets (trace (snd (search_food_info env_rate_limited
         (SerpAPIWrapper_init demo_settings 0) ''apple'')))) = 3"
  by (simp add: env_rate_limited_def SerpAPIWrapper_init_def demo_settings_def key_missing_def
      search_food_info_def search_food_info_wrapped_def upt_conv_Cons Let_def throttle_def
      try_reply_def raise_for_status_def error_result_def del: upt_Suc)

subsection \<open>The cache\<close>

lemma attempts_cache: "cache (snd (attempts env query ks b self)) = cache self"
proof (induction ks arbitrary: b self)
  case Nil
  then show ?case by simp
next
  case (Cons k ks)
  show ?case
    by (simp add: Let_def Cons.IH throttle_fields split: option.splits sum.splits)
qed

lemma wrapped_cache: "cache (snd (search_food_info_wrapped env self query)) = cache self"
  using attempts_cache [of env query "[0 ..< max_retries self + 1]" "min_interval self" self]
  by (auto simp: search_food_info_wrapped_def simp del: upt_Suc split: prod.splits sum.splits)

lemma map_of_tl_fresh: "map_of xs k = None \<Longrightarrow> map_of (tl xs) k = None"
  by (cases xs) (auto split: if_splits)

lemma map_of_filter_other: "map_of (filter (\<lambda>kv. fst kv \<noteq> k) xs) k = None"
  by (induction xs) auto

text \<open>After a lookup the cache holds the value the lookup returned, whatever it is.\<close>

lemma search_food_info_stores:
  "map_of (cache (snd (search_food_info env self query))) query
     = Some (fst (search_food_info env self query))"
proof (cases "map_of (cache self) query")
  case None
  obtain v s where w: "search_food_info_wrapped env self query = (v, s)"
    by (cases "search_food_info_wrapped env self query")
  then have c: "cache s = cache self"
    using wrapped_cache [of env self query] by simp
  have "cache self \<noteq> [] \<Longrightarrow> tl (cache self @ [(query, v)]) = tl (cache self) @ [(query, v)]"
    by simp
  moreover have "127 < length (cache self) \<Longrightarrow> cache self \<noteq> []"
    by auto
  ultimately show ?thesis
    using None w c by (simp add: search_food_info_def map_add_def map_of_tl_fresh)
next
  case (Some v)
  then show ?thesis
    by (simp add: search_food_info_def map_add_def map_of_filter_other)
qed

lemma search_food_info_hit:
  assumes "map_of (cache self) query = Some v"
  shows "fst (search_food_info env self query) = v
    \<and> trace (snd (search_food_info env self query)) = trace self
    \<and> monotonic (snd (search_food_info env self query)) = monotonic self
    \<and> last_request_ts (snd (search_food_info env self query)) = last_request_ts self"
  using assms by (simp add: search_food_info_def)

text \<open>
  Claim C4, as amended (the cache memoizes every returned result). For every client,
  every query and every behaviour of the network, a lookup followed immediately by a
  second lookup for the same query returns the first lookup's result again, whether that
  was a success or an error dict, and the second lookup issues no GET, does not sleep
  and does not touch the throttle's stamp or the clock.
\<close>

theorem cache_memoizes_every_result:
  "fst (search_food_info env' (snd (search_food_info env self query)) query)
     = fst (search_food_info env self query)
   \<and> trace (snd (search_food_info env' (snd (search_food_info env self query)) query))
     = trace (snd (search_food_info env self query))
   \<and> monotonic (snd (search_food_info env' (snd (search_food_info env self query)) query))
     = monotonic (snd (search_food_info env self query))
   \<and> last_request_ts (snd (search_food_info env' (snd (search_food_info env self query)) query))
     = last_request_ts (snd (search_food_info env self query))"
  using search_food_info_hit [OF search_food_info_stores [of env self query], of env']
  by simp

text \<open>
  The claim as the spec states it fails: the first attempt for \<open>apple\<close> is answered
  with 500 and the lookup returns an error dict; the second lookup returns the same
  error dict from the cache and issues no GET, although the function under the
  decorator, run again, would get the payload.
\<close>

theorem cache_stores_failure_counterexample:
  "fst (search_food_info env_flaky (SerpAPIWrapper_init demo_settings 0) ''apple'')
     = JObj [(''error'', JStr ''Internal Server Error'')]
   \<and> fst (search_food_info env_flaky
            (snd (search_food_info env_flaky (SerpAPIWrapper_init demo_settings 0) ''apple''))
            ''apple'')
     = JObj [(''error'', JStr ''Internal Server Error'')]
   \<and> gets (trace (snd (search_food_info env_flaky
            (snd (search_food_info env_flaky (SerpAPIWrapper_init demo_settings 0) ''apple''))
            ''apple'')))
     = [(''apple'', 1)]
   \<and> gets (trace (snd (search_food_info env_flaky (SerpAPIWrapper_init demo_settings 0) ''apple'')))
     = [(''apple'', 1)]
   \<and> fst (search_food_info_wrapped env_flaky
            (snd (search_food_info env_flaky (SerpAPIWrapper_init demo_settings 0) ''apple''))
            ''apple'')
     \<noteq> JObj [(''error'', JStr ''Internal Server Error'')]"
  by (simp add: env_flaky_def SerpAPIWrapper_init_def demo_settings_def key_missing_def
      search_food_info_def search_food_info_wrapped_def upt_conv_Cons Let_def throttle_def
      try_reply_def raise_for_status_def error_result_def demo_payload_def demo_fields_def demo_organic_def organic_def
      snippet_of_def del: upt_Suc)

subsection \<open>Shaping the payload\<close>

lemma snippet_of_Inr:
  "snippet_of res = Inr sn \<longleftrightarrow>
     (\<exists>fields. res = JObj fields
        \<and> sn = JObj [(''title'', case map_of fields ''title'' of Some v \<Rightarrow> v | None \<Rightarrow> JNull),
                     (''snippet'', case map_of fields ''snippet'' of Some v \<Rightarrow> v | None \<Rightarrow> JNull),
                     (''link'', case map_of fields ''link'' of Some v \<Rightarrow> v | None \<Rightarrow> JNull)])"
  by (cases res) (auto simp: snippet_of_def)

lemma snippets_of_Inr:
  "snippets_of xs = Inr sns
   \<Longrightarrow> length sns = length xs \<and> (\<forall>i<length xs. snippet_of (xs ! i) = Inr (sns ! i))"
proof (induction xs arbitrary: sns)
  case Nil
  then show ?case by simp
next
  case (Cons x xs)
  then obtain sn rest where sn: "snippet_of x = Inr sn" and rest: "snippets_of xs = Inr rest"
    and sns: "sns = sn # rest"
    by (auto split: sum.splits)
  have "length rest = length xs \<and> (\<forall>i<length xs. snippet_of (xs ! i) = Inr (rest ! i))"
    using rest by (rule Cons.IH)
  then show ?case
    using sn sns by (auto simp: nth_Cons split: nat.splits)
qed

lemma snippets_of_objects:
  assumes "\<forall>r\<in>set xs. \<exists>fields. r = JObj fields"
  shows "\<exists>sns. snippets_of xs = Inr sns"
  using assms
proof (induction xs)
  case Nil
  then show ?case by simp
next
  case (Cons x xs)
  then obtain fields sns where "x = JObj fields" and "snippets_of xs = Inr sns"
    by auto
  then show ?case
    by (simp add: snippet_of_def)
qed

lemma first_three_length: "first_three j = Inr firsts \<Longrightarrow> length firsts \<le> 3"
  by (cases j) auto

lemma shape_results_Inr:
  assumes "shape_results data = Inr results"
  shows "\<exists>kvs sns. data = JObj kvs
    \<and> results = JObj [(''snippets'', JArr sns),
                      (''knowledge_graph'',
                         case map_of kvs ''knowledge_graph'' of Some kg \<Rightarrow> kg | None \<Rightarrow> JObj [])]
    \<and> length sns \<le> 3
    \<and> (\<forall>sn\<in>set sns. \<exists>title snippet link.
          sn = JObj [(''title'', title), (''snippet'', snippet), (''link'', link)])"
proof -
  obtain kvs where data: "data = JObj kvs"
    using assms by (cases data) simp_all
  let ?kg = "case map_of kvs ''knowledge_graph'' of Some kg \<Rightarrow> kg | None \<Rightarrow> JObj []"
  have "\<exists>sns. results = JObj [(''snippets'', JArr sns), (''knowledge_graph'', ?kg)]
      \<and> length sns \<le> 3
      \<and> (\<forall>i<length sns. \<exists>res. snippet_of res = Inr (sns ! i))"
  proof (cases "map_of kvs ''organic_results''")
    case None
    then have "results = JObj [(''snippets'', JArr []), (''knowledge_graph'', ?kg)]"
      using assms unfolding data by simp
    then show ?thesis by simp
  next
    case (Some org)
    show ?thesis
    proof (cases "first_three org")
      case (Inl e)
      have "shape_results (JObj kvs) = Inl e"
        using Some Inl by simp
      then have False
        using assms unfolding data by simp
      then show ?thesis ..
    next
      case (Inr firsts)
      show ?thesis
      proof (cases "snippets_of firsts")
        case (Inl e)
        have "shape_results (JObj kvs) = Inl e"
          using Some \<open>first_three org = Inr firsts\<close> Inl by simp
        then have False
          using assms unfolding data by simp
        then show ?thesis ..
      next
        case (Inr sns)
        then have r: "results = JObj [(''snippets'', JArr sns), (''knowledge_graph'', ?kg)]"
          using assms Some \<open>first_three org = Inr firsts\<close> unfolding data by simp
        note all = snippets_of_Inr [OF Inr]
        have "length sns \<le> 3"
          using first_three_length [OF \<open>first_three org = Inr firsts\<close>] all by simp
        moreover have "\<forall>i<length sns. \<exists>res. snippet_of res = Inr (sns ! i)"
          using all by auto
        ultimately show ?thesis
          using r by (intro exI [of _ sns]) simp
      qed
    qed
  qed
  then obtain sns where all: "results = JObj [(''snippets'', JArr sns), (''knowledge_graph'', ?kg)]
      \<and> length sns \<le> 3
      \<and> (\<forall>i<length sns. \<exists>res. snippet_of res = Inr (sns ! i))" ..
  then have r: "results = JObj [(''snippets'', JArr sns), (''knowledge_graph'', ?kg)]"
    and len: "length sns \<le> 3"
    and each: "\<forall>i<length sns. \<exists>res. snippet_of res = Inr (sns ! i)"
    by simp_all
  have "\<exists>title snippet link.
          sns ! i = JObj [(''title'', title), (''snippet'', snippet), (''link'', link)]"
    if lt: "i < length sns" for i
  proof -
    obtain res where "snippet_of res = Inr (sns ! i)"
      using each lt by auto
    then show ?thesis
      unfolding snippet_of_Inr by (elim exE conjE) simp
  qed
  then have "\<forall>sn\<in>set sns. \<exists>title snippet link.
          sn = JObj [(''title'', title), (''snippet'', snippet), (''link'', link)]"
    by (simp add: all_set_conv_all_nth)
  then have "data = JObj kvs
      \<and> results = JObj [(''snippets'', JArr sns), (''knowledge_graph'', ?kg)]
      \<and> length sns \<le> 3
      \<and> (\<forall>sn\<in>set sns. \<exists>title snippet link.
            sn = JObj [(''title'', title), (''snippet'', snippet), (''link'', link)])"
    using data r len by simp
  then show ?thesis
    by (intro exI [of _ kvs] exI [of _ sns])
qed

lemma shape_results_objects:
  assumes "map_of kvs ''organic_results'' = Some (JArr rs)"
    and "\<forall>r\<in>set (take 3 rs). \<exists>fields. r = JObj fields"
  shows "\<exists>sns. shape_results (JObj kvs)
        = Inr (JObj [(''snippets'', JArr sns),
                     (''knowledge_graph'',
                        case map_of kvs ''knowledge_graph'' of Some kg \<Rightarrow> kg | None \<Rightarrow> JObj [])])
    \<and> length sns = min 3 (length rs)
    \<and> (\<forall>i<length sns. \<forall>fields. rs ! i = JObj fields \<longrightarrow>
          sns ! i = JObj [(''title'', case map_of fields ''title'' of Some v \<Rightarrow> v | None \<Rightarrow> JNull),
                          (''snippet'', case map_of fields ''snippet'' of Some v \<Rightarrow> v | None \<Rightarrow> JNull),
                          (''link'', case map_of fields ''link'' of Some v \<Rightarrow> v | None \<Rightarrow> JNull)])"
proof -
  obtain sns where s: "snippets_of (take 3 rs) = Inr sns"
    using snippets_of_objects [OF assms(2)] by blast
  note all2 = snippets_of_Inr [OF s]
  have len: "length sns = min 3 (length rs)"
    using all2 by (simp add: min.commute)
  have "sns ! i = JObj [(''title'', case map_of fields ''title'' of Some v \<Rightarrow> v | None \<Rightarrow> JNull),
                          (''snippet'', case map_of fields ''snippet'' of Some v \<Rightarrow> v | None \<Rightarrow> JNull),
                          (''link'', case map_of fields ''link'' of Some v \<Rightarrow> v | None \<Rightarrow> JNull)]"
    if "i < length sns" and "rs ! i = JObj fields" for i fields
  proof -
    have "snippet_of (take 3 rs ! i) = Inr (sns ! i)"
      using all2 that(1) by simp
    moreover have "take 3 rs ! i = rs ! i"
      using that(1) len by simp
    ultimately show ?thesis
      using that(2) by (simp add: snippet_of_Inr)
  qed
  note entries = this
  have "shape_results (JObj kvs)
        = Inr (JObj [(''snippets'', JArr sns),
                     (''knowledge_graph'',
                        case map_of kvs ''knowledge_graph'' of Some kg \<Rightarrow> kg | None \<Rightarrow> JObj [])])"
    using assms(1) s by simp
  then show ?thesis
    using len entries by (intro exI [of _ sns]) simp
qed

text \<open>One pass of the loop whose reply is a success with a parsed body.\<close>

lemma attempts_succeeds:
  assumes "try_reply (attempt < max_retries self)
             (snd (net env (length (gets (trace self))) query)) = Some (Inr data)"
  shows "fst (attempts env query (attempt # rest) backoff self) = Inr data"
proof -
  have "length (gets (trace (throttle self))) = length (gets (trace self))"
    using throttle_trace [of self] by (metis append_Nil2 gets_append)
  then show ?thesis
    using assms by (simp add: Let_def throttle_fields)
qed

lemma wrapped_succeeds:
  assumes "\<not> key_missing (api_key self)"
    and "snd (net env (length (gets (trace self))) query) = Response status reason (Inr data)"
    and "200 \<le> status" and "status < 300"
    and "shape_results data = Inr results"
  shows "fst (search_food_info_wrapped env self query) = results"
proof -
  have "try_reply (0 < max_retries self) (snd (net env (length (gets (trace self))) query))
          = Some (Inr data)"
    using assms(2,3,4) by (simp add: try_reply_def raise_for_status_def)
  then have "fst (attempts env query (0 # [1 ..< max_retries self + 1]) (min_interval self) self)
          = Inr data"
    by (rule attempts_succeeds)
  moreover have "[0 ..< max_retries self + 1] = 0 # [1 ..< max_retries self + 1]"
    by (simp add: upt_conv_Cons del: upt_Suc)
  ultimately have "fst (attempts env query [0 ..< max_retries self + 1] (min_interval self) self)
          = Inr data"
    by simp
  then show ?thesis
    using assms(1,5)
    by (auto simp: search_food_info_wrapped_def simp del: upt_Suc split: prod.splits sum.splits)
qed

text \<open>
  Claim C9 (result shaping). Whenever the projection of a payload succeeds, the payload
  is a dict and the result is the dict with exactly the two keys \<open>snippets\<close> and
  \<open>knowledge_graph\<close>: the latter is the payload's \<open>knowledge_graph\<close> value, or the empty
  dict when the payload has none; the former has at most three entries, each a dict with
  exactly the keys \<open>title\<close>, \<open>snippet\<close>, \<open>link\<close>. For a payload whose
  \<open>organic_results\<close> is a list with dicts in its first three places, the projection
  succeeds, the entries are as many as these places, and the entry at each place carries
  that result's three fields (\<open>None\<close> for a missing one) and nothing else of it. A payload
  without \<open>organic_results\<close> gives no snippets. A lookup the cache does not serve,
  answered at its first attempt by a success status with such a payload, returns exactly
  this projection.
\<close>

theorem result_shaping_projection:
  "(shape_results data = Inr results \<longrightarrow>
      (\<exists>kvs sns. data = JObj kvs
         \<and> results = JObj [(''snippets'', JArr sns),
                           (''knowledge_graph'',
                              case map_of kvs ''knowledge_graph'' of
                                Some kg \<Rightarrow> kg | None \<Rightarrow> JObj [])]
         \<and> length sns \<le> 3
         \<and> (\<forall>sn\<in>set sns. \<exists>title snippet link.
               sn = JObj [(''title'', title), (''snippet'', snippet), (''link'', link)])))
   \<and> (map_of kvs ''organic_results'' = Some (JArr rs)
        \<and> (\<forall>r\<in>set (take 3 rs). \<exists>fields. r = JObj fields) \<longrightarrow>
      (\<exists>sns. shape_results (JObj kvs)
           = Inr (JObj [(''snippets'', JArr sns),
                        (''knowledge_graph'',
                           case map_of kvs ''knowledge_graph'' of
                             Some kg \<Rightarrow> kg | None \<Rightarrow> JObj [])])
         \<and> length sns = min 3 (length rs)
         \<and> (\<forall>i<length sns. \<forall>fields. rs ! i = JObj fields \<longrightarrow>
               sns ! i =
                 JObj [(''title'', case map_of fields ''title'' of Some v \<Rightarrow> v | None \<Rightarrow> JNull),
                       (''snippet'', case map_of fields ''snippet'' of Some v \<Rightarrow> v | None \<Rightarrow> JNull),
                       (''link'', case map_of fields ''link'' of Some v \<Rightarrow> v | None \<Rightarrow> JNull)])))
   \<and> (map_of kvs ''organic_results'' = None \<longrightarrow>
        shape_results (JObj kvs)
          = Inr (JObj [(''snippets'', JArr []),
                       (''knowledge_graph'',
                          case map_of kvs ''knowledge_graph'' of
                            Some kg \<Rightarrow> kg | None \<Rightarrow> JObj [])]))
   \<and> (\<not> key_missing (api_key self) \<and> map_of (cache self) query = None
        \<and> snd (net env (length (gets (trace self))) query) = Response status reason (Inr data)
        \<and> 200 \<le> status \<and> status < 300 \<and> shape_results data = Inr results \<longrightarrow>
        fst (search_food_info env self query) = results)"
  (is "?shaped \<and> ?objects \<and> ?absent \<and> ?served")
proof -
  have 1: ?shaped
    by (rule impI) (rule shape_results_Inr)
  have 2: ?objects
    by (rule impI, elim conjE) (rule shape_results_objects)
  have 3: ?absent
    by simp
  have 4: ?served
  proof (rule impI, elim conjE)
    assume key: "\<not> key_missing (api_key self)" and miss: "map_of (cache self) query = None"
      and reply: "snd (net env (length (gets (trace self))) query) = Response status reason (Inr data)"
      and ok: "200 \<le> status" "status < 300" and shaped: "shape_results data = Inr results"
    have "fst (search_food_info_wrapped env self query) = results"
      using key reply ok shaped by (rule wrapped_succeeds)
    then show "fst (search_food_info env self query) = results"
      using search_food_info_miss [OF miss, of env] by simp
  qed
  show ?thesis
    by (rule conjI [OF 1 conjI [OF 2 conjI [OF 3 4]]])
qed

lemma demo_payload_shaped: "shape_results demo_payload = Inr demo_projection"
  by (simp add: demo_payload_def demo_fields_def demo_organic_def organic_def snippet_of_def
      demo_projection_def)

lemma demo_organic_objects:
  "map_of demo_fields ''organic_results'' = Some (JArr demo_organic)
   \<and> (\<forall>r\<in>set (take 3 demo_organic). \<exists>fields. r = JObj fields)"
  by (simp add: demo_fields_def demo_organic_def organic_def)

lemma demo_serving_reply:
  "snd (net env_serving (length (gets (trace (SerpAPIWrapper_init demo_settings 0)))) ''apple'')
     = Response 200 ''OK'' (Inr demo_payload)"
  by (simp add: env_serving_def)

theorem result_shaping_projection_witness:
  "fst (search_food_info env_serving (SerpAPIWrapper_init demo_settings 0) ''apple'')
     = demo_projection
   \<and> (\<exists>sns. shape_results (JObj demo_fields)
          = Inr (JObj [(''snippets'', JArr sns),
                       (''knowledge_graph'', JObj [(''title'', JStr ''Apple'')])])
        \<and> length sns = 3
        \<and> sns ! 2 = JObj [(''title'', JStr ''plum''), (''snippet'', JNull), (''link'', JNull)])
   \<and> shape_results (JObj [(''search_metadata'', JNull)])
     = Inr (JObj [(''snippets'', JArr []), (''knowledge_graph'', JObj [])])"
proof -
  let ?c = "SerpAPIWrapper_init demo_settings 0"
  note f = demo_client_fields [of "''apple''"]
  note served = result_shaping_projection [where data = demo_payload and results = demo_projection
      and self = ?c and query = "''apple''" and env = env_serving and status = 200
      and reason = "''OK''" and kvs = demo_fields and rs = demo_organic]
  have 1: "fst (search_food_info env_serving ?c ''apple'') = demo_projection"
    using served f demo_serving_reply demo_payload_shaped by simp
  obtain sns where s: "shape_results (JObj demo_fields)
          = Inr (JObj [(''snippets'', JArr sns),
                       (''knowledge_graph'',
                          case map_of demo_fields ''knowledge_graph'' of
                            Some kg \<Rightarrow> kg | None \<Rightarrow> JObj [])])"
    and len: "length sns = min 3 (length demo_organic)"
    and each: "\<forall>i<length sns. \<forall>fields. demo_organic ! i = JObj fields \<longrightarrow>
               sns ! i =
                 JObj [(''title'', case map_of fields ''title'' of Some v \<Rightarrow> v | None \<Rightarrow> JNull),
                       (''snippet'', case map_of fields ''snippet'' of Some v \<Rightarrow> v | None \<Rightarrow> JNull),
                       (''link'', case map_of fields ''link'' of Some v \<Rightarrow> v | None \<Rightarrow> JNull)]"
    using served demo_organic_objects by auto
  have len3: "length sns = 3"
    using len by (simp add: demo_organic_def)
  have "demo_organic ! 2 = JObj [(''title'', JStr ''plum'')]"
    by (simp add: demo_organic_def)
  then have third: "sns ! 2 = JObj [(''title'', JStr ''plum''), (''snippet'', JNull), (''link'', JNull)]"
    using each len3 by simp
  have 2: "\<exists>sns. shape_results (JObj demo_fields)
          = Inr (JObj [(''snippets'', JArr sns),
                       (''knowledge_graph'', JObj [(''title'', JStr ''Apple'')])])
        \<and> length sns = 3
        \<and> sns ! 2 = JObj [(''title'', JStr ''plum''), (''snippet'', JNull), (''link'', JNull)]"
    using s len3 third by (intro exI [of _ sns]) (simp add: demo_fields_def)
  have 3: "shape_results (JObj [(''search_metadata'', JNull)])
     = Inr (JObj [(''snippets'', JArr []), (''knowledge_graph'', JObj [])])"
    using result_shaping_projection [where kvs = "[(''search_metadata'', JNull)]"]
    by simp
  show ?thesis
    by (rule conjI [OF 1 conjI [OF 2 3]])
qed

subsection \<open>The throttle in sequential histories\<close>

lemma spaced_snoc:
  "spaced d (ts @ [t]) \<longleftrightarrow> spaced d ts \<and> (ts = [] \<or> d \<le> t - last ts)"
  by (induction d ts rule: spaced.induct) auto

lemma throttle_stamp:
  "last_request_ts (throttle self) = monotonic (throttle self)
   \<and> last_request_ts self + min_interval self \<le> last_request_ts (throttle self)"
  by (auto simp: throttle_def Let_def)

lemma throttle_gets: "gets (trace (throttle self)) = gets (trace self)"
  by (simp add: throttle_def Let_def gets_append)

text \<open>One GET after \<open>_throttle\<close>, and the back-off sleep that may follow it.\<close>

lemma throttled_get:
  assumes "throttled self"
  shows "throttled ((throttle self)\<lparr>monotonic := m,
           trace := trace (throttle self) @ [Get query (monotonic (throttle self))]\<rparr>)"
proof -
  let ?t = "throttle self"
  have stamp: "last_request_ts ?t = monotonic ?t"
    and later: "last_request_ts self + min_interval self \<le> last_request_ts ?t"
    using throttle_stamp [of self] by simp_all
  show ?thesis
  proof (cases "gets (trace self) = []")
    case True
    then show ?thesis
      using assms stamp
      by (simp add: throttled_def gets_append throttle_gets throttle_fields)
  next
    case False
    then have "snd (last (gets (trace self))) \<le> last_request_ts self"
      using assms by (simp add: throttled_def)
    then have "min_interval self \<le> monotonic ?t - last (map snd (gets (trace self)))"
      using False stamp later by (simp add: last_map)
    then show ?thesis
      using assms stamp False
      by (simp add: throttled_def gets_append throttle_gets throttle_fields spaced_snoc)
  qed
qed

lemma throttled_sleep:
  assumes "throttled self"
  shows "throttled (self\<lparr>monotonic := m, trace := trace self @ [Backoff_sleep b]\<rparr>)"
  using assms by (simp add: throttled_def gets_append)

lemma attempts_throttled:
  "throttled self \<Longrightarrow> throttled (snd (attempts env query ks b self))"
proof (induction ks arbitrary: b self)
  case Nil
  then show ?case by simp
next
  case (Cons k ks)
  let ?t = "throttle self"
  let ?s2 = "?t\<lparr>monotonic := monotonic ?t + fst (net env (length (gets (trace ?t))) query),
               trace := trace ?t @ [Get query (monotonic ?t)]\<rparr>"
  let ?s3 = "?s2\<lparr>monotonic := monotonic ?s2 + b * backoff_factor self,
                 trace := trace ?s2 @ [Backoff_sleep (b * backoff_factor self)]\<rparr>"
  have 2: "throttled ?s2"
    using Cons.prems by (rule throttled_get)
  then have 3: "throttled ?s3"
    by (rule throttled_sleep)
  have rec: "throttled (snd (attempts env query ks (b * backoff_factor self) ?s3))"
    using 3 by (rule Cons.IH)
  show ?case
    using 2 rec by (simp add: Let_def throttle_fields split: option.splits sum.splits)
qed

lemma wrapped_throttled:
  "throttled self \<Longrightarrow> throttled (snd (search_food_info_wrapped env self query))"
  using attempts_throttled [of self env query "[0 ..< max_retries self + 1]" "min_interval self"]
  by (auto simp: search_food_info_wrapped_def simp del: upt_Suc split: prod.splits sum.splits)

lemma search_food_info_throttled:
  assumes "throttled self"
  shows "throttled (snd (search_food_info env self query))"
proof (cases "map_of (cache self) query")
  case None
  obtain v s where w: "search_food_info_wrapped env self query = (v, s)"
    by (cases "search_food_info_wrapped env self query")
  then have "throttled s"
    using wrapped_throttled [OF assms, of env query] by simp
  then show ?thesis
    using None w by (simp add: search_food_info_def throttled_def)
next
  case (Some v)
  then show ?thesis
    using assms by (simp add: search_food_info_def throttled_def)
qed

lemma lookups_throttled: "throttled self \<Longrightarrow> throttled (lookups qs self)"
proof (induction qs arbitrary: self)
  case Nil
  then show ?case by (simp add: lookups_def)
next
  case (Cons q qs)
  obtain env query where q: "q = (env, query)" by (cases q)
  have "throttled (snd (search_food_info env self query))"
    using Cons.prems by (rule search_food_info_throttled)
  then have "throttled (lookups qs (snd (search_food_info env self query)))"
    by (rule Cons.IH)
  then show ?case
    using q by (simp add: lookups_def)
qed

lemma attempts_min_interval:
  "min_interval (snd (attempts env query ks b self)) = min_interval self"
  by (induction ks arbitrary: b self)
     (simp_all add: Let_def throttle_fields split: option.splits sum.splits)

lemma wrapped_min_interval:
  "min_interval (snd (search_food_info_wrapped env self query)) = min_interval self"
  using attempts_min_interval [of env query "[0 ..< max_retries self + 1]" "min_interval self" self]
  by (auto simp: search_food_info_wrapped_def simp del: upt_Suc split: prod.splits sum.splits)

lemma search_food_info_min_interval:
  "min_interval (snd (search_food_info env self query)) = min_interval self"
  using wrapped_min_interval [of env self query]
  by (auto simp: search_food_info_def split: option.splits prod.splits)

lemma lookups_min_interval: "min_interval (lookups qs self) = min_interval self"
proof (induction qs arbitrary: self)
  case Nil
  then show ?case by (simp add: lookups_def)
next
  case (Cons q qs)
  obtain env query where q: "q = (env, query)" by (cases q)
  show ?case
    using Cons.IH [of "snd (search_food_info env self query)"] q
    by (simp add: lookups_def search_food_info_min_interval)
qed

text \<open>
  In a sequential history of lookups on a client built by \<open>__init__\<close>, whatever the
  network does and however long it takes, the clock readings at which the GETs are issued
  are at least the minimum interval apart, retries included.
\<close>

lemma sequential_gets_spaced:
  "spaced (max 0 (SERPAPI_MIN_INTERVAL cfg))
     (map snd (gets (trace (lookups qs (SerpAPIWrapper_init cfg t0)))))"
proof -
  have "throttled (SerpAPIWrapper_init cfg t0)"
    by (simp add: throttled_def SerpAPIWrapper_init_def)
  then have "throttled (lookups qs (SerpAPIWrapper_init cfg t0))"
    by (rule lookups_throttled)
  moreover have "min_interval (lookups qs (SerpAPIWrapper_init cfg t0))
      = min_interval (SerpAPIWrapper_init cfg t0)"
    by (rule lookups_min_interval)
  ultimately show ?thesis
    by (simp add: throttled_def SerpAPIWrapper_init_def)
qed

end
